theory Spec2Isabelle
  imports Main "HOL-Library.Word"
begin

section \<open>Errors and outcomes\<close>

text \<open>
  The error constructors of \<^verbatim>\<open>utils/errors\<close> that the two packages use or that the
  specification names. \<open>ErrOther\<close> stands for any error value a collaborator (payload
  codec, device store, MAC-command processing) returns. A Go function either returns its
  results or panics; \<open>Panic\<close> carries the runtime's message.
\<close>

datatype error =
    ErrInternal string
  | ErrInvalidArgument string string
  | ErrNotFound string
  | ErrOther string

datatype 'a outcome = Return 'a | Panic string

fun is_NotFound :: "error \<Rightarrow> bool" where
  "is_NotFound (ErrNotFound _) = True"
| "is_NotFound _ = False"

section \<open>The broker's connection registry (core/broker/broker.go)\<close>

text \<open>
  A channel value is a reference to a channel object. The objects live in a store, a list
  indexed by the reference; \<^verbatim>\<open>make\<close> appends a new open object, \<^verbatim>\<open>close\<close> marks one
  closed and panics on \<^verbatim>\<open>nil\<close> and on a closed channel. \<open>None\<close> is the \<^verbatim>\<open>nil\<close> channel.
  A reference is only ever obtained from \<^verbatim>\<open>make\<close>, so none points outside the store; the
  model of \<^verbatim>\<open>close\<close> treats such a reference like a closed channel.

  Go's \<^verbatim>\<open>int\<close> is a 64-bit two's complement integer on the 64-bit targets; \<^verbatim>\<open>++\<close> and
  \<^verbatim>\<open>--\<close> wrap around. (On a 32-bit target the same model applies with 32 in place of 64.)
\<close>

type_synonym chan = nat
type_synonym go_int = "64 word"

datatype chan_state = Open | Closed

record router =
  downlinkConns :: go_int
  downlink :: "chan option"

record handler =
  conn :: "nat option"
  uplinkConns :: go_int
  uplink :: "chan option"

text \<open>
  The maps hold pointers, \<^verbatim>\<open>map[string]*router\<close>. Every pointer is made by \<^verbatim>\<open>new\<close> in
  \<^verbatim>\<open>getRouter\<close> (\<^verbatim>\<open>getHandler\<close>) for one key and stored under that key only, so no two keys
  share an entry and the map from id to the entry's contents is the same information.
  The fields of \<^verbatim>\<open>broker\<close> that the registry functions do not touch are left out. The
  mutexes are not modelled: each registry function runs under the entry's lock from its
  first read to its last write, so calls are taken one after the other. The Prometheus
  gauges \<^verbatim>\<open>connectedRouters\<close> and \<^verbatim>\<open>connectedHandlers\<close> are left out too.
\<close>

record broker =
  routers :: "string \<rightharpoonup> router"
  handlers :: "string \<rightharpoonup> handler"
  chans :: "chan_state list"

definition NewBroker :: broker where
  "NewBroker = \<lparr>routers = Map.empty, handlers = Map.empty, chans = []\<rparr>"

text \<open>\<^verbatim>\<open>new(router)\<close>, \<^verbatim>\<open>new(handler)\<close>: the zero values.\<close>

definition new_router :: router where
  "new_router = \<lparr>downlinkConns = 0, downlink = None\<rparr>"

definition new_handler :: handler where
  "new_handler = \<lparr>conn = None, uplinkConns = 0, uplink = None\<rparr>"

definition make_chan :: "broker \<Rightarrow> chan \<times> broker" where
  "make_chan b = (length (chans b), b\<lparr>chans := chans b @ [Open]\<rparr>)"

definition close_chan :: "chan_state list \<Rightarrow> chan option \<Rightarrow> string + chan_state list" where
  "close_chan h c =
     (case c of
        None \<Rightarrow> Inl ''close of nil channel''
      | Some a \<Rightarrow>
          if a < length h \<and> h ! a = Open then Inr (h[a := Closed])
          else Inl ''close of closed channel'')"

definition getRouter :: "broker \<Rightarrow> string \<Rightarrow> router \<times> broker" where
  "getRouter b ident =
     (case routers b ident of
        Some existing \<Rightarrow> (existing, b)
      | None \<Rightarrow> (new_router, b\<lparr>routers := (routers b)(ident \<mapsto> new_router)\<rparr>))"

definition ActivateRouterDownlink ::
    "broker \<Rightarrow> string \<Rightarrow> (chan option \<times> error option) \<times> broker" where
  "ActivateRouterDownlink b ident =
     (let (rtr, b1) = getRouter b ident;
          (rtr1, b2) =
            (if downlink rtr = None
             then (let (c, b') = make_chan b1 in (rtr\<lparr>downlink := Some c\<rparr>, b'))
             else (rtr, b1));
          rtr2 = rtr1\<lparr>downlinkConns := downlinkConns rtr1 + 1\<rparr>
      in ((downlink rtr2, None), b2\<lparr>routers := (routers b2)(ident \<mapsto> rtr2)\<rparr>))"

definition DeactivateRouterDownlink ::
    "broker \<Rightarrow> string \<Rightarrow> error option outcome \<times> broker" where
  "DeactivateRouterDownlink b ident =
     (let (rtr, b1) = getRouter b ident in
      if downlinkConns rtr = 0
      then (Return (Some (ErrInternal (''Router '' @ ident @ '' not active''))), b1)
      else
        (let rtr1 = rtr\<lparr>downlinkConns := downlinkConns rtr - 1\<rparr>;
             b2 = b1\<lparr>routers := (routers b1)(ident \<mapsto> rtr1)\<rparr>
         in if downlinkConns rtr1 = 0
            then (case close_chan (chans b2) (downlink rtr1) of
                    Inl p \<Rightarrow> (Panic p, b2)
                  | Inr h \<Rightarrow>
                      (Return None,
                       b2\<lparr>routers := (routers b2)(ident \<mapsto> rtr1\<lparr>downlink := None\<rparr>),
                          chans := h\<rparr>))
            else (Return None, b2)))"

definition getRouterDownlink ::
    "broker \<Rightarrow> string \<Rightarrow> (chan option \<times> error option) \<times> broker" where
  "getRouterDownlink b ident =
     (let (rtr, b1) = getRouter b ident in
      if downlink rtr = None
      then ((None, Some (ErrInternal (''Router '' @ ident @ '' not active''))), b1)
      else ((downlink rtr, None), b1))"

definition getHandler :: "broker \<Rightarrow> string \<Rightarrow> handler \<times> broker" where
  "getHandler b ident =
     (case handlers b ident of
        Some existing \<Rightarrow> (existing, b)
      | None \<Rightarrow> (new_handler, b\<lparr>handlers := (handlers b)(ident \<mapsto> new_handler)\<rparr>))"

definition ActivateHandlerUplink ::
    "broker \<Rightarrow> string \<Rightarrow> (chan option \<times> error option) \<times> broker" where
  "ActivateHandlerUplink b ident =
     (let (hdl, b1) = getHandler b ident;
          (hdl1, b2) =
            (if uplink hdl = None
             then (let (c, b') = make_chan b1 in (hdl\<lparr>uplink := Some c\<rparr>, b'))
             else (hdl, b1));
          hdl2 = hdl1\<lparr>uplinkConns := uplinkConns hdl1 + 1\<rparr>
      in ((uplink hdl2, None), b2\<lparr>handlers := (handlers b2)(ident \<mapsto> hdl2)\<rparr>))"

definition DeactivateHandlerUplink ::
    "broker \<Rightarrow> string \<Rightarrow> error option outcome \<times> broker" where
  "DeactivateHandlerUplink b ident =
     (let (hdl, b1) = getHandler b ident in
      if uplinkConns hdl = 0
      then (Return (Some (ErrInternal (''Handler '' @ ident @ '' not active''))), b1)
      else
        (let hdl1 = hdl\<lparr>uplinkConns := uplinkConns hdl - 1\<rparr>;
             b2 = b1\<lparr>handlers := (handlers b1)(ident \<mapsto> hdl1)\<rparr>
         in if uplinkConns hdl1 = 0
            then (case close_chan (chans b2) (uplink hdl1) of
                    Inl p \<Rightarrow> (Panic p, b2)
                  | Inr h \<Rightarrow>
                      (Return None,
                       b2\<lparr>handlers := (handlers b2)(ident \<mapsto> hdl1\<lparr>uplink := None\<rparr>),
                          chans := h\<rparr>))
            else (Return None, b2)))"

definition getHandlerUplink ::
    "broker \<Rightarrow> string \<Rightarrow> (chan option \<times> error option) \<times> broker" where
  "getHandlerUplink b ident =
     (let (hdl, b1) = getHandler b ident in
      if uplink hdl = None
      then ((None, Some (ErrInternal (''Handler '' @ ident @ '' not active''))), b1)
      else ((uplink hdl, None), b1))"

subsection \<open>Reading an entry, and running a sequence of calls\<close>

text \<open>
  The contents of the entry for an id; an id with no entry yet reads as the zero entry
  that \<^verbatim>\<open>getRouter\<close> (\<^verbatim>\<open>getHandler\<close>) would create for it.
\<close>

definition router_of :: "broker \<Rightarrow> string \<Rightarrow> router" where
  "router_of b ident = (case routers b ident of Some r \<Rightarrow> r | None \<Rightarrow> new_router)"

definition handler_of :: "broker \<Rightarrow> string \<Rightarrow> handler" where
  "handler_of b ident = (case handlers b ident of Some h \<Rightarrow> h | None \<Rightarrow> new_handler)"

datatype call =
    ActivateRouter string
  | DeactivateRouter string
  | ActivateHandler string
  | DeactivateHandler string

fun is_activate :: "call \<Rightarrow> bool" where
  "is_activate (ActivateRouter _) = True"
| "is_activate (ActivateHandler _) = True"
| "is_activate _ = False"

text \<open>One call on the broker; \<open>None\<close> when the call panics.\<close>

fun do_call :: "call \<Rightarrow> broker \<Rightarrow> broker option" where
  "do_call (ActivateRouter ident) b = Some (snd (ActivateRouterDownlink b ident))"
| "do_call (DeactivateRouter ident) b =
     (case DeactivateRouterDownlink b ident of
        (Return _, b') \<Rightarrow> Some b'
      | (Panic _, _) \<Rightarrow> None)"
| "do_call (ActivateHandler ident) b = Some (snd (ActivateHandlerUplink b ident))"
| "do_call (DeactivateHandler ident) b =
     (case DeactivateHandlerUplink b ident of
        (Return _, b') \<Rightarrow> Some b'
      | (Panic _, _) \<Rightarrow> None)"

fun run :: "call list \<Rightarrow> broker \<Rightarrow> broker option" where
  "run [] b = Some b"
| "run (c # cs) b = (case do_call c b of None \<Rightarrow> None | Some b' \<Rightarrow> run cs b')"

subsection \<open>The invariant of the registry\<close>

text \<open>
  An entry is in order when a nil channel goes with a zero count and a non-nil channel is an
  open object of the store and goes with a positive count. The broker is in order when all
  its entries are and no channel object belongs to two entries. \<open>bounded m\<close> bounds every
  count by \<open>m\<close>.
\<close>

definition rt_ok :: "chan_state list \<Rightarrow> router \<Rightarrow> bool" where
  "rt_ok h r =
     (case downlink r of
        None \<Rightarrow> downlinkConns r = 0
      | Some c \<Rightarrow> c < length h \<and> h ! c = Open \<and> 0 < sint (downlinkConns r))"

definition hd_ok :: "chan_state list \<Rightarrow> handler \<Rightarrow> bool" where
  "hd_ok h r =
     (case uplink r of
        None \<Rightarrow> uplinkConns r = 0
      | Some c \<Rightarrow> c < length h \<and> h ! c = Open \<and> 0 < sint (uplinkConns r))"

definition wf :: "broker \<Rightarrow> bool" where
  "wf b =
     ((\<forall>i. rt_ok (chans b) (router_of b i)) \<and>
      (\<forall>i. hd_ok (chans b) (handler_of b i)) \<and>
      (\<forall>i j c. downlink (router_of b i) = Some c \<and> downlink (router_of b j) = Some c \<longrightarrow> i = j) \<and>
      (\<forall>i j c. uplink (handler_of b i) = Some c \<and> uplink (handler_of b j) = Some c \<longrightarrow> i = j) \<and>
      (\<forall>i j c. downlink (router_of b i) = Some c \<longrightarrow> uplink (handler_of b j) \<noteq> Some c))"

definition bounded :: "int \<Rightarrow> broker \<Rightarrow> bool" where
  "bounded m b =
     (\<forall>i. sint (downlinkConns (router_of b i)) \<le> m \<and> sint (uplinkConns (handler_of b i)) \<le> m)"

text \<open>
  The broker in which the only entry is the router \<open>''r''\<close>, with the first channel of the
  store, open, and count \<open>n\<close>.
\<close>

definition overflowed :: "go_int \<Rightarrow> broker" where
  "overflowed n = \<lparr>routers = [''r'' \<mapsto> \<lparr>downlinkConns = n, downlink = Some 0\<rparr>],
                    handlers = Map.empty, chans = [Open]\<rparr>"

section \<open>The network server's uplink handling (core/networkserver/uplink.go)\<close>

subsection \<open>Messages and the device record\<close>

text \<open>
  The protocol messages come from the API library; only the fields \<^verbatim>\<open>HandleUplink\<close> reads or
  writes are kept. A pointer field that may be \<^verbatim>\<open>nil\<close> is an option. The generated getters
  (\<^verbatim>\<open>GetLoRaWAN\<close>, \<^verbatim>\<open>GetMACPayload\<close>, \<^verbatim>\<open>GetDownlinkOption\<close>, \<^verbatim>\<open>GetProtocolConfiguration\<close>) return
  \<^verbatim>\<open>nil\<close> on a \<^verbatim>\<open>nil\<close> receiver, which is reading through the options. Frame counters are
  \<^verbatim>\<open>uint32\<close>. A \<^verbatim>\<open>time.Time\<close> is a number; the clock itself is not modelled, the caller of
  the model supplies the value that \<^verbatim>\<open>time.Now()\<close> gives at line 59.
\<close>

type_synonym bytes = "8 word list"
type_synonym eui = "64 word"
type_synonym time = int

record mac_payload =
  DevAddr :: "32 word"
  FCnt :: "32 word"
  FPort :: "32 word"
  FRMPayload :: bytes

record lorawan_message =
  MACPayload :: "mac_payload option"

record protocol_message =
  LoRaWAN :: "lorawan_message option"

record lorawan_tx_configuration =
  TxFCnt :: "32 word"

record tx_configuration =
  TxLoRaWAN :: "lorawan_tx_configuration option"

record downlink_option =
  ProtocolConfiguration :: "tx_configuration option"

record downlink_message =
  DownPayload :: bytes
  DownMessage :: protocol_message
  DownlinkOption :: "downlink_option option"

record uplink_message =
  Payload :: bytes
  Message :: protocol_message
  DevEUI :: "eui option"
  AppEUI :: "eui option"
  ResponseTemplate :: "downlink_message option"
  Trace :: "string list"

text \<open>
  Modelled from the spec: the device record of package \<^verbatim>\<open>core/networkserver/device\<close>, whose
  declaration is not among the sources. The specification gives it an uplink frame counter,
  a downlink frame counter and a last-seen timestamp, keyed by the two EUIs, and an
  in-progress marker for the start-update/commit pattern.
\<close>

record device =
  dev_AppEUI :: eui
  dev_DevEUI :: eui
  FCntUp :: "32 word"
  FCntDown :: "32 word"
  LastSeen :: time
  in_update :: bool

text \<open>
  Modelled from the spec: \<^verbatim>\<open>dev.StartUpdate()\<close> of the same package opens the update of the
  record that the later \<^verbatim>\<open>devices.Set\<close> commits; it changes no counter and no timestamp.
\<close>

definition StartUpdate :: "device \<Rightarrow> device" where
  "StartUpdate d = d\<lparr>in_update := True\<rparr>"

subsection \<open>Collaborators, events and results\<close>

text \<open>
  What \<^verbatim>\<open>HandleUplink\<close> calls and does not define is a parameter: the payload codec
  (\<^verbatim>\<open>UnmarshalPayload\<close>, which fills \<^verbatim>\<open>message.Message\<close> in place, and
  \<^verbatim>\<open>PHYPayload().MarshalBinary()\<close>), the device store with its state \<open>'st\<close>, and
  \<^verbatim>\<open>handleUplinkMAC\<close>, which receives the message and the device by pointer and may change
  both, also when it returns an error. \<^verbatim>\<open>handleUplinkMAC\<close> is taken not to touch the store.
  \<^verbatim>\<open>devices.Get\<close> returns a device or an error.
\<close>

record 'st collaborators =
  UnmarshalPayload :: "uplink_message \<Rightarrow> error option \<times> uplink_message"
  devices_Get :: "'st \<Rightarrow> eui \<Rightarrow> eui \<Rightarrow> error + device"
  devices_Set :: "'st \<Rightarrow> device \<Rightarrow> error option \<times> 'st"
  handleUplinkMAC :: "uplink_message \<Rightarrow> device \<Rightarrow> error option \<times> uplink_message \<times> device"
  MarshalBinary :: "lorawan_message \<Rightarrow> bytes \<times> error option"

text \<open>
  The calls that leave the function, in the order they happen: the status meter, the two
  store operations, MAC-command processing with the arguments it is given, and the log lines.
\<close>

datatype event =
    StatusUplinkMark
  | DevicesGet eui eui
  | DevicesSet device
  | HandleUplinkMAC uplink_message device
  | LogWarn string error
  | LogInfo string
  | LogError string error

fun is_HandleUplinkMAC :: "event \<Rightarrow> bool" where
  "is_HandleUplinkMAC (HandleUplinkMAC _ _) = True"
| "is_HandleUplinkMAC _ = False"

fun is_DevicesSet :: "event \<Rightarrow> bool" where
  "is_DevicesSet (DevicesSet _) = True"
| "is_DevicesSet _ = False"

text \<open>
  What a call leaves behind: the two results it returns (or a panic), the contents of the
  message the caller passed by pointer, the store, and the events.
\<close>

record 'st result =
  returned :: "(uplink_message option \<times> error option) outcome"
  message_after :: uplink_message
  store_after :: 'st
  events :: "event list"

subsection \<open>Preparing the downlink (lines 61 to 71)\<close>

text \<open>
  \<^verbatim>\<open>trace.UpdateStateEvent\<close> is a string constant of the API library; its text plays no role.
\<close>

definition UpdateStateEvent :: string where
  "UpdateStateEvent = ''update state''"

definition GetMACPayload :: "protocol_message \<Rightarrow> mac_payload option" where
  "GetMACPayload pm = (case LoRaWAN pm of None \<Rightarrow> None | Some lw \<Rightarrow> MACPayload lw)"

text \<open>
  The three \<^verbatim>\<open>Init\<close> helpers belong to the API library. Each is taken to return the part it
  is named after, creating an empty one when the receiver has none; the caller below writes
  the changed part back where the pointer points.
\<close>

definition InitResponseTemplate :: "uplink_message \<Rightarrow> downlink_message" where
  "InitResponseTemplate m =
     (case ResponseTemplate m of
        None \<Rightarrow> \<lparr>DownPayload = [], DownMessage = \<lparr>LoRaWAN = None\<rparr>, DownlinkOption = None\<rparr>
      | Some t \<Rightarrow> t)"

definition InitLoRaWAN :: "protocol_message \<Rightarrow> lorawan_message" where
  "InitLoRaWAN pm = (case LoRaWAN pm of None \<Rightarrow> \<lparr>MACPayload = None\<rparr> | Some lw \<Rightarrow> lw)"

definition InitDownlink :: "lorawan_message \<Rightarrow> mac_payload" where
  "InitDownlink lw =
     (case MACPayload lw of
        None \<Rightarrow> \<lparr>DevAddr = 0, FCnt = 0, FPort = 0, FRMPayload = []\<rparr>
      | Some p \<Rightarrow> p)"

text \<open>
  Lines 68 to 71: the counter of the LoRaWAN protocol configuration is written only when the
  template has a downlink option with such a configuration.
\<close>

definition set_conf_FCnt :: "32 word \<Rightarrow> downlink_option option \<Rightarrow> downlink_option option" where
  "set_conf_FCnt c opt =
     (case opt of
        None \<Rightarrow> None
      | Some dopt \<Rightarrow>
          (case ProtocolConfiguration dopt of
             None \<Rightarrow> Some dopt
           | Some conf \<Rightarrow>
               (case TxLoRaWAN conf of
                  None \<Rightarrow> Some dopt
                | Some lorawan \<Rightarrow>
                    Some (dopt\<lparr>ProtocolConfiguration :=
                            Some (conf\<lparr>TxLoRaWAN := Some (lorawan\<lparr>TxFCnt := c\<rparr>)\<rparr>)\<rparr>))))"

text \<open>
  Lines 62 to 71. The first component is the object \<^verbatim>\<open>lorawanDownlinkMsg\<close> points to, which
  line 78 marshals; the second is the message with the template written.
\<close>

definition prepare_downlink ::
    "mac_payload \<Rightarrow> device \<Rightarrow> uplink_message \<Rightarrow> lorawan_message \<times> uplink_message" where
  "prepare_downlink lorawanUplinkMAC dev message =
     (let tmpl = InitResponseTemplate message;
          lorawanDownlinkMsg = InitLoRaWAN (DownMessage tmpl);
          lorawanDownlinkMAC = (InitDownlink lorawanDownlinkMsg)
            \<lparr>FPort := FPort lorawanUplinkMAC,
             DevAddr := DevAddr lorawanUplinkMAC,
             FCnt := FCntDown dev\<rparr>;
          lorawanDownlinkMsg' = lorawanDownlinkMsg\<lparr>MACPayload := Some lorawanDownlinkMAC\<rparr>
      in (lorawanDownlinkMsg',
          message\<lparr>ResponseTemplate := Some (tmpl
            \<lparr>DownMessage := \<lparr>LoRaWAN = Some lorawanDownlinkMsg'\<rparr>,
             DownlinkOption := set_conf_FCnt (FCntDown dev) (DownlinkOption tmpl)\<rparr>)\<rparr>))"

text \<open>Lines 47, 58 and 59: the working record.\<close>

definition staged_device :: "mac_payload \<Rightarrow> time \<Rightarrow> device \<Rightarrow> device" where
  "staged_device lorawanUplinkMAC now dev =
     (StartUpdate dev)\<lparr>FCntUp := FCnt lorawanUplinkMAC, LastSeen := now\<rparr>"

subsection \<open>The deferred functions and the function itself\<close>

text \<open>
  The two deferred closures read and write the local variable \<^verbatim>\<open>err\<close>. The function's
  results are unnamed, so a \<^verbatim>\<open>return\<close> statement fixes the returned values before the
  deferred closures run, and what they assign to \<^verbatim>\<open>err\<close> afterwards reaches the log line
  only. The closure registered at line 31 runs last and logs; the duration in its message is
  left out.
\<close>

definition deferred_log :: "error option \<Rightarrow> event list" where
  "deferred_log err =
     (case err of
        Some e \<Rightarrow> [LogWarn ''Could not handle uplink'' e]
      | None \<Rightarrow> [LogInfo ''Handled uplink''])"

text \<open>
  The closure registered at line 48: the value of \<^verbatim>\<open>err\<close> after it, the store, and its
  events.
\<close>

definition deferred_Set ::
    "'st collaborators \<Rightarrow> 'st \<Rightarrow> device \<Rightarrow> error option \<Rightarrow> error option \<times> 'st \<times> event list" where
  "deferred_Set n st dev err =
     (let (setErr, st') = devices_Set n st dev
      in (if err = None then setErr else err,
          st',
          DevicesSet dev #
            (case setErr of
               Some e \<Rightarrow> [LogError ''Could not update device state'' e]
             | None \<Rightarrow> [])))"

text \<open>
  Lines 74 to 88, after \<^verbatim>\<open>handleUplinkMAC\<close> has returned \<open>err\<close> and left the message as
  \<open>message\<close>: the returned values, the value of \<^verbatim>\<open>err\<close> when the function exits, and the
  message. \<^verbatim>\<open>lorawanDownlinkMsg\<close> still points to the object made at line 63;
  \<^verbatim>\<open>handleUplinkMAC\<close> is taken to change that object in place, so its contents are read from
  the template, and from \<open>made\<close> when the template no longer holds a LoRaWAN message. The
  assignment at line 78 goes through \<^verbatim>\<open>message.ResponseTemplate\<close> and panics when
  \<^verbatim>\<open>handleUplinkMAC\<close> has set it to \<^verbatim>\<open>nil\<close>.
\<close>

definition finish_uplink ::
    "'st collaborators \<Rightarrow> lorawan_message \<Rightarrow> error option \<Rightarrow> uplink_message \<Rightarrow>
     (uplink_message option \<times> error option) outcome \<times> error option \<times> uplink_message" where
  "finish_uplink n made err message =
     (case err of
        Some e \<Rightarrow> (Return (None, Some e), Some e, message)
      | None \<Rightarrow>
          (case ResponseTemplate message of
             None \<Rightarrow> (Panic ''invalid memory address or nil pointer dereference'', None, message)
           | Some tmpl \<Rightarrow>
               (let lorawanDownlinkMsg =
                      (case LoRaWAN (DownMessage tmpl) of None \<Rightarrow> made | Some lw \<Rightarrow> lw);
                    (payload, err2) = MarshalBinary n lorawanDownlinkMsg;
                    message2 = message\<lparr>ResponseTemplate := Some (tmpl\<lparr>DownPayload := payload\<rparr>)\<rparr>
                in case err2 of
                     Some e \<Rightarrow> (Return (None, Some e), Some e, message2)
                   | None \<Rightarrow>
                       (let message3 =
                              (if DownlinkOption tmpl = None
                               then message2\<lparr>ResponseTemplate := None\<rparr>
                               else message2)
                        in (Return (Some message3, None), None, message3)))))"

text \<open>
  \<^verbatim>\<open>HandleUplink\<close>. The dereferences \<^verbatim>\<open>*message.AppEUI\<close> and \<^verbatim>\<open>*message.DevEUI\<close> at line 40
  panic on \<^verbatim>\<open>nil\<close>; the logging closure is registered by then and finds \<^verbatim>\<open>err\<close> still
  \<^verbatim>\<open>nil\<close>. Deferred closures run on a panic as on a return.
\<close>

definition HandleUplink ::
    "'st collaborators \<Rightarrow> time \<Rightarrow> 'st \<Rightarrow> uplink_message \<Rightarrow> 'st result" where
  "HandleUplink n now st message0 =
     (case UnmarshalPayload n message0 of
        (Some e, message) \<Rightarrow>
          \<lparr>returned = Return (None, Some e), message_after = message, store_after = st, events = []\<rparr>
      | (None, message) \<Rightarrow>
          (case GetMACPayload (Message message) of
             None \<Rightarrow>
               \<lparr>returned = Return (None,
                    Some (ErrInvalidArgument ''Uplink'' ''does not contain a MAC payload'')),
                message_after = message, store_after = st, events = []\<rparr>
           | Some lorawanUplinkMAC \<Rightarrow>
               (case (AppEUI message, DevEUI message) of
                  (Some app, Some deui) \<Rightarrow>
                    (case devices_Get n st app deui of
                       Inl e \<Rightarrow>
                         \<lparr>returned = Return (None, Some e), message_after = message,
                          store_after = st,
                          events = [StatusUplinkMark, DevicesGet app deui] @ deferred_log (Some e)\<rparr>
                     | Inr dev0 \<Rightarrow>
                         (let message1 = message\<lparr>Trace := Trace message @ [UpdateStateEvent]\<rparr>;
                              dev = staged_device lorawanUplinkMAC now dev0;
                              (made, message2) = prepare_downlink lorawanUplinkMAC dev message1;
                              (macErr, message3, dev') = handleUplinkMAC n message2 dev;
                              (ret, err, message4) = finish_uplink n made macErr message3;
                              (err', st', setEvents) = deferred_Set n st dev' err
                          in \<lparr>returned = ret, message_after = message4, store_after = st',
                              events = [StatusUplinkMark, DevicesGet app deui,
                                        HandleUplinkMAC message2 dev]
                                       @ setEvents @ deferred_log err'\<rparr>))
                | _ \<Rightarrow>
                    \<lparr>returned = Panic ''invalid memory address or nil pointer dereference'', message_after = message,
                     store_after = st, events = [StatusUplinkMark] @ deferred_log None\<rparr>)))"

subsection \<open>Reading the counters of a response template\<close>

definition template_FCnt :: "uplink_message \<Rightarrow> 32 word option" where
  "template_FCnt m =
     (case ResponseTemplate m of
        None \<Rightarrow> None
      | Some t \<Rightarrow> (case GetMACPayload (DownMessage t) of None \<Rightarrow> None | Some p \<Rightarrow> Some (FCnt p)))"

definition template_conf_FCnt :: "uplink_message \<Rightarrow> 32 word option" where
  "template_conf_FCnt m =
     (case ResponseTemplate m of
        None \<Rightarrow> None
      | Some t \<Rightarrow>
          (case DownlinkOption t of
             None \<Rightarrow> None
           | Some dopt \<Rightarrow>
               (case ProtocolConfiguration dopt of
                  None \<Rightarrow> None
                | Some conf \<Rightarrow>
                    (case TxLoRaWAN conf of None \<Rightarrow> None | Some lw \<Rightarrow> Some (TxFCnt lw)))))"

subsection \<open>A concrete server, store and uplink\<close>

text \<open>
  A store that is a map from the two EUIs to the record, a codec that rejects an empty
  payload, and the MAC-command stub of the specification's scenario, which adds one to the
  device's downlink counter. The two variants fail in MAC-command processing and in the
  store's \<^verbatim>\<open>Set\<close>.
\<close>

type_synonym store = "eui \<times> eui \<rightharpoonup> device"

definition stub_server :: "store collaborators" where
  "stub_server =
     \<lparr>UnmarshalPayload =
        (\<lambda>m. if Payload m = [] then (Some (ErrOther ''empty payload''), m) else (None, m)),
      devices_Get =
        (\<lambda>st a d. case st (a, d) of None \<Rightarrow> Inl (ErrNotFound ''device'') | Some dev \<Rightarrow> Inr dev),
      devices_Set =
        (\<lambda>st dev. (None, st((dev_AppEUI dev, dev_DevEUI dev) \<mapsto> dev\<lparr>in_update := False\<rparr>))),
      handleUplinkMAC = (\<lambda>m dev. (None, m, dev\<lparr>FCntDown := FCntDown dev + 1\<rparr>)),
      MarshalBinary = (\<lambda>lw. ([1, 2, 3], None))\<rparr>"

definition failing_mac_server :: "store collaborators" where
  "failing_mac_server =
     stub_server\<lparr>handleUplinkMAC := (\<lambda>m dev. (Some (ErrOther ''mac commands''), m, dev))\<rparr>"

definition failing_store_server :: "store collaborators" where
  "failing_store_server =
     stub_server\<lparr>devices_Set := (\<lambda>st dev. (Some (ErrOther ''store unavailable''), st))\<rparr>"

definition dev_1 :: device where
  "dev_1 = \<lparr>dev_AppEUI = 1, dev_DevEUI = 2, FCntUp = 40, FCntDown = 5, LastSeen = 0,
            in_update = False\<rparr>"

definition store_1 :: store where
  "store_1 = [(1, 2) \<mapsto> dev_1]"

definition uplink_mac_1 :: mac_payload where
  "uplink_mac_1 = \<lparr>DevAddr = 7, FCnt = 41, FPort = 1, FRMPayload = []\<rparr>"

definition uplink_1 :: uplink_message where
  "uplink_1 =
     \<lparr>Payload = [64],
      Message = \<lparr>LoRaWAN = Some \<lparr>MACPayload = Some uplink_mac_1\<rparr>\<rparr>,
      DevEUI = Some 2, AppEUI = Some 1,
      ResponseTemplate = Some \<lparr>DownPayload = [], DownMessage = \<lparr>LoRaWAN = None\<rparr>,
        DownlinkOption = Some \<lparr>ProtocolConfiguration =
          Some \<lparr>TxLoRaWAN = Some \<lparr>TxFCnt = 0\<rparr>\<rparr>\<rparr>\<rparr>,
      Trace = []\<rparr>"

definition response_1 :: uplink_message where
  "response_1 =
     uplink_1\<lparr>ResponseTemplate := Some
        \<lparr>DownPayload = [1, 2, 3],
         DownMessage = \<lparr>LoRaWAN = Some \<lparr>MACPayload =
           Some \<lparr>DevAddr = 7, FCnt = 5, FPort = 1, FRMPayload = []\<rparr>\<rparr>\<rparr>,
         DownlinkOption = Some \<lparr>ProtocolConfiguration =
           Some \<lparr>TxLoRaWAN = Some \<lparr>TxFCnt = 5\<rparr>\<rparr>\<rparr>\<rparr>,
       Trace := [UpdateStateEvent]\<rparr>"

definition no_mac_uplink :: uplink_message where
  "no_mac_uplink = uplink_1\<lparr>Message := \<lparr>LoRaWAN = None\<rparr>\<rparr>"


section \<open>Lemmas on the registry\<close>

subsection \<open>Signed reading of the count\<close>

lemma sint_succ: "sint (x::go_int) < 2^63 - 1 \<Longrightarrow> sint (x + 1) = sint x + 1"
proof -
  assume a: "sint x < 2^63 - 1"
  have "- (2^63) \<le> sint x" using sint_ge [of x] by simp
  with a have "signed_take_bit 63 (sint x + 1) = sint x + 1"
    by (intro signed_take_bit_int_eq_self) auto
  then show ?thesis by (simp add: sint_word_add)
qed

lemma sint_pred: "0 < sint (x::go_int) \<Longrightarrow> sint (x - 1) = sint x - 1"
proof -
  assume a: "0 < sint x"
  have "sint x < 2^63" using sint_lt [of x] by simp
  with a have "signed_take_bit 63 (sint x - 1) = sint x - 1"
    by (intro signed_take_bit_int_eq_self) auto
  then show ?thesis by (simp add: sint_word_diff)
qed

lemma sint_pred_pos: "0 < sint (x::go_int) \<Longrightarrow> x - 1 \<noteq> 0 \<Longrightarrow> 0 < sint (x - 1)"
proof -
  assume a: "0 < sint x" and b: "x - 1 \<noteq> 0"
  have "sint (x - 1) \<noteq> 0"
  proof
    assume "sint (x - 1) = 0"
    then have "word_of_int (sint (x - 1)) = (0::go_int)" by simp
    then show False using b by simp
  qed
  then show ?thesis using sint_pred [OF a] a by linarith
qed

lemma unat_of_nat_go_int: "n < 2 ^ 64 \<Longrightarrow> unat (of_nat n :: go_int) = n"
  by (simp add: unat_of_nat)

subsection \<open>Sequences of calls\<close>

lemma run_append:
  "run (xs @ ys) b = (case run xs b of None \<Rightarrow> None | Some b' \<Rightarrow> run ys b')"
  by (induction xs arbitrary: b) (auto split: option.splits)

subsection \<open>What each call does to the entries and the channel store\<close>

lemma router_of_getRouter [simp]: "router_of (snd (getRouter b i)) j = router_of b j"
  by (auto simp: getRouter_def router_of_def split: option.splits)

lemma handler_of_getRouter [simp]: "handler_of (snd (getRouter b i)) j = handler_of b j"
  by (auto simp: getRouter_def handler_of_def split: option.splits)

lemma chans_getRouter [simp]: "chans (snd (getRouter b i)) = chans b"
  by (auto simp: getRouter_def split: option.splits)

lemma fst_getRouter [simp]: "fst (getRouter b i) = router_of b i"
  by (auto simp: getRouter_def router_of_def split: option.splits)

lemma router_of_Activate:
  "router_of (snd (ActivateRouterDownlink b i)) j =
     (if j = i
      then \<lparr>downlinkConns = downlinkConns (router_of b i) + 1,
            downlink = Some (case downlink (router_of b i) of None \<Rightarrow> length (chans b) | Some c \<Rightarrow> c)\<rparr>
      else router_of b j)"
  by (auto simp: ActivateRouterDownlink_def getRouter_def router_of_def make_chan_def new_router_def
      split: option.splits prod.splits)

lemma handler_of_ActivateR: "handler_of (snd (ActivateRouterDownlink b i)) j = handler_of b j"
  by (auto simp: ActivateRouterDownlink_def getRouter_def handler_of_def make_chan_def
      split: option.splits prod.splits)

lemma chans_ActivateR:
  "chans (snd (ActivateRouterDownlink b i)) =
     (if downlink (router_of b i) = None then chans b @ [Open] else chans b)"
  by (auto simp: ActivateRouterDownlink_def getRouter_def router_of_def make_chan_def new_router_def
      split: option.splits prod.splits)

lemma Deactivate_router_zero:
  assumes "downlinkConns (router_of b i) = 0"
  shows "fst (DeactivateRouterDownlink b i) = Return (Some (ErrInternal (''Router '' @ i @ '' not active'')))"
    and "router_of (snd (DeactivateRouterDownlink b i)) j = router_of b j"
    and "handler_of (snd (DeactivateRouterDownlink b i)) j = handler_of b j"
    and "chans (snd (DeactivateRouterDownlink b i)) = chans b"
  using assms
  by (auto simp: DeactivateRouterDownlink_def getRouter_def router_of_def handler_of_def new_router_def
      split: option.splits)

lemma Deactivate_router_more:
  assumes "downlinkConns (router_of b i) \<noteq> 0" "downlinkConns (router_of b i) - 1 \<noteq> 0"
  shows "fst (DeactivateRouterDownlink b i) = Return None"
    and "router_of (snd (DeactivateRouterDownlink b i)) j =
          (if j = i then (router_of b i)\<lparr>downlinkConns := downlinkConns (router_of b i) - 1\<rparr>
           else router_of b j)"
    and "handler_of (snd (DeactivateRouterDownlink b i)) j = handler_of b j"
    and "chans (snd (DeactivateRouterDownlink b i)) = chans b"
  using assms
  by (auto simp: DeactivateRouterDownlink_def getRouter_def router_of_def handler_of_def new_router_def
      Let_def split: option.splits)

lemma Deactivate_router_last:
  assumes "downlinkConns (router_of b i) = 1" "downlink (router_of b i) = Some c"
    "c < length (chans b)" "chans b ! c = Open"
  shows "fst (DeactivateRouterDownlink b i) = Return None"
    and "router_of (snd (DeactivateRouterDownlink b i)) j =
          (if j = i then \<lparr>downlinkConns = 0, downlink = None\<rparr> else router_of b j)"
    and "handler_of (snd (DeactivateRouterDownlink b i)) j = handler_of b j"
    and "chans (snd (DeactivateRouterDownlink b i)) = (chans b)[c := Closed]"
  using assms
  by (auto simp: DeactivateRouterDownlink_def getRouter_def router_of_def handler_of_def new_router_def
      close_chan_def Let_def split: option.splits)

lemma handler_of_getHandler [simp]: "handler_of (snd (getHandler b i)) j = handler_of b j"
  by (auto simp: getHandler_def handler_of_def split: option.splits)

lemma router_of_getHandler [simp]: "router_of (snd (getHandler b i)) j = router_of b j"
  by (auto simp: getHandler_def router_of_def split: option.splits)

lemma chans_getHandler [simp]: "chans (snd (getHandler b i)) = chans b"
  by (auto simp: getHandler_def split: option.splits)

lemma fst_getHandler [simp]: "fst (getHandler b i) = handler_of b i"
  by (auto simp: getHandler_def handler_of_def split: option.splits)

lemma handler_of_ActivateH:
  "handler_of (snd (ActivateHandlerUplink b i)) j =
     (if j = i
      then \<lparr>conn = conn (handler_of b i), uplinkConns = uplinkConns (handler_of b i) + 1,
            uplink = Some (case uplink (handler_of b i) of None \<Rightarrow> length (chans b) | Some c \<Rightarrow> c)\<rparr>
      else handler_of b j)"
  by (auto simp: ActivateHandlerUplink_def getHandler_def handler_of_def make_chan_def new_handler_def
      split: option.splits prod.splits)

lemma router_of_ActivateH: "router_of (snd (ActivateHandlerUplink b i)) j = router_of b j"
  by (auto simp: ActivateHandlerUplink_def getHandler_def router_of_def make_chan_def
      split: option.splits prod.splits)

lemma chans_ActivateH:
  "chans (snd (ActivateHandlerUplink b i)) =
     (if uplink (handler_of b i) = None then chans b @ [Open] else chans b)"
  by (auto simp: ActivateHandlerUplink_def getHandler_def handler_of_def make_chan_def new_handler_def
      split: option.splits prod.splits)

lemma Deactivate_handler_zero:
  assumes "uplinkConns (handler_of b i) = 0"
  shows "fst (DeactivateHandlerUplink b i) = Return (Some (ErrInternal (''Handler '' @ i @ '' not active'')))"
    and "handler_of (snd (DeactivateHandlerUplink b i)) j = handler_of b j"
    and "router_of (snd (DeactivateHandlerUplink b i)) j = router_of b j"
    and "chans (snd (DeactivateHandlerUplink b i)) = chans b"
  using assms
  by (auto simp: DeactivateHandlerUplink_def getHandler_def handler_of_def router_of_def new_handler_def
      split: option.splits)

lemma Deactivate_handler_more:
  assumes "uplinkConns (handler_of b i) \<noteq> 0" "uplinkConns (handler_of b i) - 1 \<noteq> 0"
  shows "fst (DeactivateHandlerUplink b i) = Return None"
    and "handler_of (snd (DeactivateHandlerUplink b i)) j =
          (if j = i then (handler_of b i)\<lparr>uplinkConns := uplinkConns (handler_of b i) - 1\<rparr>
           else handler_of b j)"
    and "router_of (snd (DeactivateHandlerUplink b i)) j = router_of b j"
    and "chans (snd (DeactivateHandlerUplink b i)) = chans b"
  using assms
  by (auto simp: DeactivateHandlerUplink_def getHandler_def handler_of_def router_of_def new_handler_def
      Let_def split: option.splits)

lemma Deactivate_handler_last:
  assumes "uplinkConns (handler_of b i) = 1" "uplink (handler_of b i) = Some c"
    "c < length (chans b)" "chans b ! c = Open"
  shows "fst (DeactivateHandlerUplink b i) = Return None"
    and "handler_of (snd (DeactivateHandlerUplink b i)) j =
          (if j = i then \<lparr>conn = conn (handler_of b i), uplinkConns = 0, uplink = None\<rparr> else handler_of b j)"
    and "router_of (snd (DeactivateHandlerUplink b i)) j = router_of b j"
    and "chans (snd (DeactivateHandlerUplink b i)) = (chans b)[c := Closed]"
  using assms
  by (auto simp: DeactivateHandlerUplink_def getHandler_def handler_of_def router_of_def new_handler_def
      close_chan_def Let_def split: option.splits)

subsection \<open>The invariant is kept\<close>

lemma rt_ok_append: "rt_ok h r \<Longrightarrow> rt_ok (h @ [Open]) r"
  by (auto simp: rt_ok_def nth_append split: option.splits)

lemma hd_ok_append: "hd_ok h r \<Longrightarrow> hd_ok (h @ [Open]) r"
  by (auto simp: hd_ok_def nth_append split: option.splits)

lemma rt_ok_close: "rt_ok h r \<Longrightarrow> downlink r \<noteq> Some c \<Longrightarrow> rt_ok (h[c := Closed]) r"
  by (auto simp: rt_ok_def nth_list_update split: option.splits)

lemma hd_ok_close: "hd_ok h r \<Longrightarrow> uplink r \<noteq> Some c \<Longrightarrow> hd_ok (h[c := Closed]) r"
  by (auto simp: hd_ok_def nth_list_update split: option.splits)

lemma wf_ActivateR:
  assumes "wf b" "bounded m b" "m < 2 ^ 63 - 1"
  shows "wf (snd (ActivateRouterDownlink b i))" "bounded (m + 1) (snd (ActivateRouterDownlink b i))"
proof -
  let ?b = "snd (ActivateRouterDownlink b i)"
  let ?r = "router_of b i"
  have lt: "sint (downlinkConns ?r) < 2 ^ 63 - 1"
    using assms(2,3) unfolding bounded_def by (meson le_less_trans)
  have suc: "sint (downlinkConns ?r + 1) = sint (downlinkConns ?r) + 1"
    by (rule sint_succ [OF lt])
  have ok: "rt_ok (chans b) ?r" and okh: "\<And>j. hd_ok (chans b) (handler_of b j)"
    and okr: "\<And>j. rt_ok (chans b) (router_of b j)"
    using assms(1) unfolding wf_def by auto
  have nonneg: "0 \<le> sint (downlinkConns ?r)"
    using ok by (auto simp: rt_ok_def split: option.splits)
  have 1: "rt_ok (chans ?b) (router_of ?b j)" for j
    using okr [of j] ok suc nonneg
    by (auto simp: router_of_Activate chans_ActivateR rt_ok_def nth_append split: option.splits)
  have 2: "hd_ok (chans ?b) (handler_of ?b j)" for j
    using okh [of j] by (auto simp: handler_of_ActivateR chans_ActivateR hd_ok_append)
  have fresh_r: "downlink (router_of b j) \<noteq> Some (length (chans b))" for j
    using okr [of j] by (auto simp: rt_ok_def split: option.splits)
  have fresh_h: "uplink (handler_of b j) \<noteq> Some (length (chans b))" for j
    using okh [of j] by (auto simp: hd_ok_def split: option.splits)
  have 3: "downlink (router_of ?b j) = Some c \<and> downlink (router_of ?b k) = Some c \<longrightarrow> j = k" for j k c
    using assms(1) fresh_r unfolding wf_def
    by (auto simp: router_of_Activate split: option.splits if_splits)
  have 4: "uplink (handler_of ?b j) = Some c \<and> uplink (handler_of ?b k) = Some c \<longrightarrow> j = k" for j k c
    using assms(1) unfolding wf_def by (simp add: handler_of_ActivateR)
  have 5: "downlink (router_of ?b j) = Some c \<longrightarrow> uplink (handler_of ?b k) \<noteq> Some c" for j k c
    using assms(1) fresh_h unfolding wf_def
    by (auto simp: router_of_Activate handler_of_ActivateR split: option.splits if_splits)
  show "wf ?b" unfolding wf_def using 1 2 3 4 5 by blast
  show "bounded (m + 1) ?b"
    using assms(2) suc unfolding bounded_def
    by (auto simp: router_of_Activate handler_of_ActivateR intro: order_trans)
qed

lemma wf_DeactivateR:
  assumes "wf b" "bounded m b"
  shows "\<exists>e. fst (DeactivateRouterDownlink b i) = Return e"
    "wf (snd (DeactivateRouterDownlink b i))" "bounded m (snd (DeactivateRouterDownlink b i))"
proof -
  let ?b = "snd (DeactivateRouterDownlink b i)"
  let ?r = "router_of b i"
  have ok: "rt_ok (chans b) ?r" and okh: "\<And>j. hd_ok (chans b) (handler_of b j)"
    and okr: "\<And>j. rt_ok (chans b) (router_of b j)"
    using assms(1) unfolding wf_def by auto
  consider (zero) "downlinkConns ?r = 0"
    | (more) "downlinkConns ?r \<noteq> 0" "downlinkConns ?r - 1 \<noteq> 0"
    | (last) "downlinkConns ?r = 1"
    by (metis diff_eq_eq add_0)
  then have "(\<exists>e. fst (DeactivateRouterDownlink b i) = Return e) \<and> wf ?b \<and> bounded m ?b"
  proof cases
    case zero
    show ?thesis
      using assms unfolding wf_def bounded_def
      by (simp add: Deactivate_router_zero [OF zero])
  next
    case more
    from more ok obtain c where c: "downlink ?r = Some c" and pos: "0 < sint (downlinkConns ?r)"
      by (auto simp: rt_ok_def split: option.splits)
    have pos': "0 < sint (downlinkConns ?r - 1)" by (rule sint_pred_pos [OF pos more(2)])
    have le: "sint (downlinkConns ?r - 1) \<le> sint (downlinkConns ?r)"
      using sint_pred [OF pos] by simp
    have 1: "rt_ok (chans ?b) (router_of ?b j)" for j
      using okr [of j] pos'
      by (auto simp: Deactivate_router_more [OF more] rt_ok_def split: option.splits)
    have "wf ?b"
      using assms(1) 1 unfolding wf_def
      by (auto simp: Deactivate_router_more(2-4) [OF more] split: if_splits)
    moreover have "bounded m ?b"
      using assms(2) le unfolding bounded_def
      by (auto simp: Deactivate_router_more(2-4) [OF more] intro: order_trans)
    ultimately show ?thesis by (simp add: Deactivate_router_more(1) [OF more])
  next
    case last
    from last ok obtain c where c: "downlink ?r = Some c" "c < length (chans b)" "chans b ! c = Open"
      by (auto simp: rt_ok_def split: option.splits)
    note eff = Deactivate_router_last [OF last c]
    have other_r: "j \<noteq> i \<Longrightarrow> downlink (router_of b j) \<noteq> Some c" for j
      using assms(1) c(1) unfolding wf_def by blast
    have other_h: "uplink (handler_of b j) \<noteq> Some c" for j
      using assms(1) c(1) unfolding wf_def by blast
    have 1: "rt_ok (chans ?b) (router_of ?b j)" for j
      using okr [of j] other_r [of j]
      by (auto simp: eff rt_ok_close) (simp add: rt_ok_def)
    have 2: "hd_ok (chans ?b) (handler_of ?b j)" for j
      using okh [of j] other_h [of j] by (simp add: eff hd_ok_close)
    have "wf ?b"
      using assms(1) 1 2 unfolding wf_def
      by (auto simp: eff(2,3) split: if_splits)
    moreover have "bounded m ?b"
    proof -
      have "sint (downlinkConns ?r) \<le> m" using assms(2) unfolding bounded_def by blast
      then have "0 \<le> m" using last by simp
      then show ?thesis using assms(2) unfolding bounded_def by (auto simp: eff(2,3))
    qed
    ultimately show ?thesis by (simp add: eff(1))
  qed
  then show "\<exists>e. fst (DeactivateRouterDownlink b i) = Return e" "wf ?b" "bounded m ?b" by auto
qed

lemma wf_ActivateH:
  assumes "wf b" "bounded m b" "m < 2 ^ 63 - 1"
  shows "wf (snd (ActivateHandlerUplink b i))" "bounded (m + 1) (snd (ActivateHandlerUplink b i))"
proof -
  let ?b = "snd (ActivateHandlerUplink b i)"
  let ?r = "handler_of b i"
  have lt: "sint (uplinkConns ?r) < 2 ^ 63 - 1"
    using assms(2,3) unfolding bounded_def by (meson le_less_trans)
  have suc: "sint (uplinkConns ?r + 1) = sint (uplinkConns ?r) + 1"
    by (rule sint_succ [OF lt])
  have ok: "hd_ok (chans b) ?r" and okr: "\<And>j. rt_ok (chans b) (router_of b j)"
    and okh: "\<And>j. hd_ok (chans b) (handler_of b j)"
    using assms(1) unfolding wf_def by auto
  have nonneg: "0 \<le> sint (uplinkConns ?r)"
    using ok by (auto simp: hd_ok_def split: option.splits)
  have 1: "hd_ok (chans ?b) (handler_of ?b j)" for j
    using okh [of j] ok suc nonneg
    by (auto simp: handler_of_ActivateH chans_ActivateH hd_ok_def nth_append split: option.splits)
  have 2: "rt_ok (chans ?b) (router_of ?b j)" for j
    using okr [of j] by (auto simp: router_of_ActivateH chans_ActivateH rt_ok_append)
  have fresh_h: "uplink (handler_of b j) \<noteq> Some (length (chans b))" for j
    using okh [of j] by (auto simp: hd_ok_def split: option.splits)
  have fresh_r: "downlink (router_of b j) \<noteq> Some (length (chans b))" for j
    using okr [of j] by (auto simp: rt_ok_def split: option.splits)
  have 3: "uplink (handler_of ?b j) = Some c \<and> uplink (handler_of ?b k) = Some c \<longrightarrow> j = k" for j k c
    using assms(1) fresh_h unfolding wf_def
    by (auto simp: handler_of_ActivateH split: option.splits if_splits)
  have 4: "downlink (router_of ?b j) = Some c \<and> downlink (router_of ?b k) = Some c \<longrightarrow> j = k" for j k c
    using assms(1) unfolding wf_def by (simp add: router_of_ActivateH)
  have 5: "uplink (handler_of ?b j) = Some c \<longrightarrow> downlink (router_of ?b k) \<noteq> Some c" for j k c
    using assms(1) fresh_r unfolding wf_def
    by (auto simp: handler_of_ActivateH router_of_ActivateH split: option.splits if_splits)
  show "wf ?b" unfolding wf_def using 1 2 3 4 5 by blast
  show "bounded (m + 1) ?b"
    using assms(2) suc unfolding bounded_def
    by (auto simp: handler_of_ActivateH router_of_ActivateH intro: order_trans)
qed

lemma wf_DeactivateH:
  assumes "wf b" "bounded m b"
  shows "\<exists>e. fst (DeactivateHandlerUplink b i) = Return e"
    "wf (snd (DeactivateHandlerUplink b i))" "bounded m (snd (DeactivateHandlerUplink b i))"
proof -
  let ?b = "snd (DeactivateHandlerUplink b i)"
  let ?r = "handler_of b i"
  have ok: "hd_ok (chans b) ?r" and okr: "\<And>j. rt_ok (chans b) (router_of b j)"
    and okh: "\<And>j. hd_ok (chans b) (handler_of b j)"
    using assms(1) unfolding wf_def by auto
  consider (zero) "uplinkConns ?r = 0"
    | (more) "uplinkConns ?r \<noteq> 0" "uplinkConns ?r - 1 \<noteq> 0"
    | (last) "uplinkConns ?r = 1"
    by (metis diff_eq_eq add_0)
  then have "(\<exists>e. fst (DeactivateHandlerUplink b i) = Return e) \<and> wf ?b \<and> bounded m ?b"
  proof cases
    case zero
    show ?thesis
      using assms unfolding wf_def bounded_def
      by (simp add: Deactivate_handler_zero [OF zero])
  next
    case more
    from more ok obtain c where c: "uplink ?r = Some c" and pos: "0 < sint (uplinkConns ?r)"
      by (auto simp: hd_ok_def split: option.splits)
    have pos': "0 < sint (uplinkConns ?r - 1)" by (rule sint_pred_pos [OF pos more(2)])
    have le: "sint (uplinkConns ?r - 1) \<le> sint (uplinkConns ?r)"
      using sint_pred [OF pos] by simp
    have 1: "hd_ok (chans ?b) (handler_of ?b j)" for j
      using okh [of j] pos'
      by (auto simp: Deactivate_handler_more [OF more] hd_ok_def split: option.splits)
    have "wf ?b"
      using assms(1) 1 unfolding wf_def
      by (auto simp: Deactivate_handler_more(2-4) [OF more] split: if_splits)
    moreover have "bounded m ?b"
      using assms(2) le unfolding bounded_def
      by (auto simp: Deactivate_handler_more(2-4) [OF more] intro: order_trans)
    ultimately show ?thesis by (simp add: Deactivate_handler_more(1) [OF more])
  next
    case last
    from last ok obtain c where c: "uplink ?r = Some c" "c < length (chans b)" "chans b ! c = Open"
      by (auto simp: hd_ok_def split: option.splits)
    note eff = Deactivate_handler_last [OF last c]
    have other_h: "j \<noteq> i \<Longrightarrow> uplink (handler_of b j) \<noteq> Some c" for j
      using assms(1) c(1) unfolding wf_def by blast
    have other_r: "downlink (router_of b j) \<noteq> Some c" for j
      using assms(1) c(1) unfolding wf_def by blast
    have 1: "hd_ok (chans ?b) (handler_of ?b j)" for j
      using okh [of j] other_h [of j]
      by (auto simp: eff hd_ok_close) (simp add: hd_ok_def)
    have 2: "rt_ok (chans ?b) (router_of ?b j)" for j
      using okr [of j] other_r [of j] by (simp add: eff rt_ok_close)
    have "wf ?b"
      using assms(1) 1 2 unfolding wf_def
      by (auto simp: eff(2,3) split: if_splits)
    moreover have "bounded m ?b"
    proof -
      have "sint (uplinkConns ?r) \<le> m" using assms(2) unfolding bounded_def by blast
      then have "0 \<le> m" using last by simp
      then show ?thesis using assms(2) unfolding bounded_def by (auto simp: eff(2,3))
    qed
    ultimately show ?thesis by (simp add: eff(1))
  qed
  then show "\<exists>e. fst (DeactivateHandlerUplink b i) = Return e" "wf ?b" "bounded m ?b" by auto
qed

lemma wf_NewBroker: "wf NewBroker" "bounded 0 NewBroker"
  by (simp_all add: wf_def bounded_def NewBroker_def router_of_def handler_of_def new_router_def
      new_handler_def rt_ok_def hd_ok_def)

lemma do_call_wf:
  assumes "wf b" "bounded m b" "m + (if is_activate c then 1 else 0) < 2 ^ 63"
  shows "\<exists>b'. do_call c b = Some b' \<and> wf b' \<and> bounded (m + (if is_activate c then 1 else 0)) b'"
proof (cases c)
  case (ActivateRouter i)
  then show ?thesis using wf_ActivateR [of b m i] assms by simp
next
  case (DeactivateRouter i)
  then show ?thesis using wf_DeactivateR [OF assms(1,2), of i]
    by (cases "DeactivateRouterDownlink b i") auto
next
  case (ActivateHandler i)
  then show ?thesis using wf_ActivateH [of b m i] assms by simp
next
  case (DeactivateHandler i)
  then show ?thesis using wf_DeactivateH [OF assms(1,2), of i]
    by (cases "DeactivateHandlerUplink b i") auto
qed

lemma run_wf:
  "wf b \<Longrightarrow> bounded m b \<Longrightarrow> m + int (length (filter is_activate cs)) < 2 ^ 63 \<Longrightarrow>
   \<exists>b'. run cs b = Some b' \<and> wf b'"
proof (induction cs arbitrary: b m)
  case Nil
  then show ?case by simp
next
  case (Cons c cs)
  let ?d = "if is_activate c then 1 else (0::int)"
  have "m + ?d < 2 ^ 63" using Cons.prems(3) by (auto split: if_splits)
  from do_call_wf [OF Cons.prems(1,2) this]
  obtain b1 where b1: "do_call c b = Some b1" "wf b1" "bounded (m + ?d) b1" by blast
  have "m + ?d + int (length (filter is_activate cs)) < 2 ^ 63"
    using Cons.prems(3) by (auto split: if_splits)
  from Cons.IH [OF b1(2,3) this] b1(1) show ?case by simp
qed

lemma wf_entry:
  "wf b \<Longrightarrow> (downlink (router_of b i) \<noteq> None) = (0 < sint (downlinkConns (router_of b i)))"
  "wf b \<Longrightarrow> (uplink (handler_of b i) \<noteq> None) = (0 < sint (uplinkConns (handler_of b i)))"
  unfolding wf_def rt_ok_def hd_ok_def
  by (auto split: option.splits dest: spec [of _ i])

subsection \<open>Repeated calls on one id\<close>

lemma ActivateR_first:
  assumes "downlink (router_of b i) = None"
  shows "ActivateRouterDownlink b i =
    ((Some (length (chans b)), None),
     b\<lparr>chans := chans b @ [Open],
       routers := (routers b)(i \<mapsto> (router_of b i)\<lparr>downlink := Some (length (chans b)),
            downlinkConns := downlinkConns (router_of b i) + 1\<rparr>)\<rparr>)"
  using assms
  by (auto simp: ActivateRouterDownlink_def getRouter_def router_of_def make_chan_def new_router_def
      split: option.splits)

lemma ActivateR_again:
  assumes "routers b i = Some r" "downlink r = Some c"
  shows "ActivateRouterDownlink b i =
    ((Some c, None), b\<lparr>routers := (routers b)(i \<mapsto> r\<lparr>downlinkConns := downlinkConns r + 1\<rparr>)\<rparr>)"
  using assms
  by (auto simp: ActivateRouterDownlink_def getRouter_def)

lemma run_ActivateR_n:
  "routers b i = Some r \<Longrightarrow> downlink r = Some c \<Longrightarrow>
   run (replicate n (ActivateRouter i)) b =
     Some (b\<lparr>routers := (routers b)(i \<mapsto> r\<lparr>downlinkConns := downlinkConns r + of_nat n\<rparr>)\<rparr>)"
proof (induction n arbitrary: b r)
  case 0
  then show ?case by (simp add: map_upd_triv)
next
  case (Suc n)
  let ?r = "r\<lparr>downlinkConns := downlinkConns r + 1\<rparr>"
  let ?b = "b\<lparr>routers := (routers b)(i \<mapsto> ?r)\<rparr>"
  have "routers ?b i = Some ?r" "downlink ?r = Some c" using Suc.prems by simp_all
  from Suc.IH [OF this]
  have "run (replicate n (ActivateRouter i)) ?b =
    Some (?b\<lparr>routers := (routers ?b)(i \<mapsto> ?r\<lparr>downlinkConns := downlinkConns ?r + of_nat n\<rparr>)\<rparr>)" .
  moreover have "?b\<lparr>routers := (routers ?b)(i \<mapsto> ?r\<lparr>downlinkConns := downlinkConns ?r + of_nat n\<rparr>)\<rparr>
    = b\<lparr>routers := (routers b)(i \<mapsto> r\<lparr>downlinkConns := downlinkConns r + of_nat (Suc n)\<rparr>)\<rparr>"
    by (simp add: add.assoc)
  ultimately show ?case
    by (simp only: replicate_Suc run.simps do_call.simps ActivateR_again [OF Suc.prems] snd_conv option.case)
qed

lemma DeactivateR_more:
  assumes "routers b i = Some r" "downlinkConns r \<noteq> 0" "downlinkConns r - 1 \<noteq> 0"
  shows "DeactivateRouterDownlink b i =
    (Return None, b\<lparr>routers := (routers b)(i \<mapsto> r\<lparr>downlinkConns := downlinkConns r - 1\<rparr>)\<rparr>)"
  using assms by (auto simp: DeactivateRouterDownlink_def getRouter_def Let_def)

lemma DeactivateR_zero:
  assumes "routers b i = Some r" "downlinkConns r = 0"
  shows "DeactivateRouterDownlink b i =
    (Return (Some (ErrInternal (''Router '' @ i @ '' not active''))), b)"
  using assms by (auto simp: DeactivateRouterDownlink_def getRouter_def Let_def)

lemma DeactivateR_last:
  assumes "routers b i = Some r" "downlinkConns r = 1" "downlink r = Some c"
    "c < length (chans b)" "chans b ! c = Open"
  shows "DeactivateRouterDownlink b i =
    (Return None, b\<lparr>routers := (routers b)(i \<mapsto> r\<lparr>downlinkConns := 0, downlink := None\<rparr>),
                   chans := (chans b)[c := Closed]\<rparr>)"
  using assms by (auto simp: DeactivateRouterDownlink_def getRouter_def Let_def close_chan_def)

lemma run_DeactivateR_n:
  "routers b i = Some r \<Longrightarrow> n < unat (downlinkConns r) \<Longrightarrow>
   run (replicate n (DeactivateRouter i)) b =
     Some (b\<lparr>routers := (routers b)(i \<mapsto> r\<lparr>downlinkConns := downlinkConns r - of_nat n\<rparr>)\<rparr>)"
proof (induction n arbitrary: b r)
  case 0
  then show ?case by (simp add: map_upd_triv)
next
  case (Suc n)
  let ?r = "r\<lparr>downlinkConns := downlinkConns r - 1\<rparr>"
  let ?b = "b\<lparr>routers := (routers b)(i \<mapsto> ?r)\<rparr>"
  have nz: "downlinkConns r \<noteq> 0" using Suc.prems(2) by (auto simp: unat_eq_zero)
  have u: "unat (downlinkConns r - 1) = unat (downlinkConns r) - 1"
    by (rule unat_minus_one [OF nz])
  have nz1: "downlinkConns r - 1 \<noteq> 0"
  proof
    assume "downlinkConns r - 1 = 0"
    then have "unat (downlinkConns r - 1) = 0" by simp
    then show False using u Suc.prems(2) by simp
  qed
  have "routers ?b i = Some ?r" "n < unat (downlinkConns ?r)" using Suc.prems u by simp_all
  from Suc.IH [OF this]
  have "run (replicate n (DeactivateRouter i)) ?b =
    Some (?b\<lparr>routers := (routers ?b)(i \<mapsto> ?r\<lparr>downlinkConns := downlinkConns ?r - of_nat n\<rparr>)\<rparr>)" .
  moreover have "?b\<lparr>routers := (routers ?b)(i \<mapsto> ?r\<lparr>downlinkConns := downlinkConns ?r - of_nat n\<rparr>)\<rparr>
    = b\<lparr>routers := (routers b)(i \<mapsto> r\<lparr>downlinkConns := downlinkConns r - of_nat (Suc n)\<rparr>)\<rparr>"
    by (simp add: diff_diff_eq)
  ultimately show ?case
    by (simp only: replicate_Suc run.simps do_call.simps DeactivateR_more [OF Suc.prems(1) nz nz1]
        prod.case outcome.case option.case)
qed

lemma run_DeactivateR_zero_n:
  "routers b i = Some r \<Longrightarrow> downlinkConns r = 0 \<Longrightarrow>
   run (replicate n (DeactivateRouter i)) b = Some b"
  by (induction n) (simp_all add: DeactivateR_zero)

lemma getRouterDownlink_active:
  "routers b i = Some r \<Longrightarrow> downlink r = Some c \<Longrightarrow> getRouterDownlink b i = ((Some c, None), b)"
  by (simp add: getRouterDownlink_def getRouter_def)

lemma ActivateH_first:
  assumes "uplink (handler_of b i) = None"
  shows "ActivateHandlerUplink b i =
    ((Some (length (chans b)), None),
     b\<lparr>chans := chans b @ [Open],
       handlers := (handlers b)(i \<mapsto> (handler_of b i)\<lparr>uplink := Some (length (chans b)),
            uplinkConns := uplinkConns (handler_of b i) + 1\<rparr>)\<rparr>)"
  using assms
  by (auto simp: ActivateHandlerUplink_def getHandler_def handler_of_def make_chan_def new_handler_def
      split: option.splits)

lemma ActivateH_again:
  assumes "handlers b i = Some r" "uplink r = Some c"
  shows "ActivateHandlerUplink b i =
    ((Some c, None), b\<lparr>handlers := (handlers b)(i \<mapsto> r\<lparr>uplinkConns := uplinkConns r + 1\<rparr>)\<rparr>)"
  using assms
  by (auto simp: ActivateHandlerUplink_def getHandler_def)

lemma run_ActivateH_n:
  "handlers b i = Some r \<Longrightarrow> uplink r = Some c \<Longrightarrow>
   run (replicate n (ActivateHandler i)) b =
     Some (b\<lparr>handlers := (handlers b)(i \<mapsto> r\<lparr>uplinkConns := uplinkConns r + of_nat n\<rparr>)\<rparr>)"
proof (induction n arbitrary: b r)
  case 0
  then show ?case by (simp add: map_upd_triv)
next
  case (Suc n)
  let ?r = "r\<lparr>uplinkConns := uplinkConns r + 1\<rparr>"
  let ?b = "b\<lparr>handlers := (handlers b)(i \<mapsto> ?r)\<rparr>"
  have "handlers ?b i = Some ?r" "uplink ?r = Some c" using Suc.prems by simp_all
  from Suc.IH [OF this]
  have "run (replicate n (ActivateHandler i)) ?b =
    Some (?b\<lparr>handlers := (handlers ?b)(i \<mapsto> ?r\<lparr>uplinkConns := uplinkConns ?r + of_nat n\<rparr>)\<rparr>)" .
  moreover have "?b\<lparr>handlers := (handlers ?b)(i \<mapsto> ?r\<lparr>uplinkConns := uplinkConns ?r + of_nat n\<rparr>)\<rparr>
    = b\<lparr>handlers := (handlers b)(i \<mapsto> r\<lparr>uplinkConns := uplinkConns r + of_nat (Suc n)\<rparr>)\<rparr>"
    by (simp add: add.assoc)
  ultimately show ?case
    by (simp only: replicate_Suc run.simps do_call.simps ActivateH_again [OF Suc.prems] snd_conv option.case)
qed

lemma DeactivateH_more:
  assumes "handlers b i = Some r" "uplinkConns r \<noteq> 0" "uplinkConns r - 1 \<noteq> 0"
  shows "DeactivateHandlerUplink b i =
    (Return None, b\<lparr>handlers := (handlers b)(i \<mapsto> r\<lparr>uplinkConns := uplinkConns r - 1\<rparr>)\<rparr>)"
  using assms by (auto simp: DeactivateHandlerUplink_def getHandler_def Let_def)

lemma DeactivateH_zero:
  assumes "handlers b i = Some r" "uplinkConns r = 0"
  shows "DeactivateHandlerUplink b i =
    (Return (Some (ErrInternal (''Handler '' @ i @ '' not active''))), b)"
  using assms by (auto simp: DeactivateHandlerUplink_def getHandler_def Let_def)

lemma DeactivateH_last:
  assumes "handlers b i = Some r" "uplinkConns r = 1" "uplink r = Some c"
    "c < length (chans b)" "chans b ! c = Open"
  shows "DeactivateHandlerUplink b i =
    (Return None, b\<lparr>handlers := (handlers b)(i \<mapsto> r\<lparr>uplinkConns := 0, uplink := None\<rparr>),
                   chans := (chans b)[c := Closed]\<rparr>)"
  using assms by (auto simp: DeactivateHandlerUplink_def getHandler_def Let_def close_chan_def)

lemma run_DeactivateH_n:
  "handlers b i = Some r \<Longrightarrow> n < unat (uplinkConns r) \<Longrightarrow>
   run (replicate n (DeactivateHandler i)) b =
     Some (b\<lparr>handlers := (handlers b)(i \<mapsto> r\<lparr>uplinkConns := uplinkConns r - of_nat n\<rparr>)\<rparr>)"
proof (induction n arbitrary: b r)
  case 0
  then show ?case by (simp add: map_upd_triv)
next
  case (Suc n)
  let ?r = "r\<lparr>uplinkConns := uplinkConns r - 1\<rparr>"
  let ?b = "b\<lparr>handlers := (handlers b)(i \<mapsto> ?r)\<rparr>"
  have nz: "uplinkConns r \<noteq> 0" using Suc.prems(2) by (auto simp: unat_eq_zero)
  have u: "unat (uplinkConns r - 1) = unat (uplinkConns r) - 1"
    by (rule unat_minus_one [OF nz])
  have nz1: "uplinkConns r - 1 \<noteq> 0"
  proof
    assume "uplinkConns r - 1 = 0"
    then have "unat (uplinkConns r - 1) = 0" by simp
    then show False using u Suc.prems(2) by simp
  qed
  have "handlers ?b i = Some ?r" "n < unat (uplinkConns ?r)" using Suc.prems u by simp_all
  from Suc.IH [OF this]
  have "run (replicate n (DeactivateHandler i)) ?b =
    Some (?b\<lparr>handlers := (handlers ?b)(i \<mapsto> ?r\<lparr>uplinkConns := uplinkConns ?r - of_nat n\<rparr>)\<rparr>)" .
  moreover have "?b\<lparr>handlers := (handlers ?b)(i \<mapsto> ?r\<lparr>uplinkConns := uplinkConns ?r - of_nat n\<rparr>)\<rparr>
    = b\<lparr>handlers := (handlers b)(i \<mapsto> r\<lparr>uplinkConns := uplinkConns r - of_nat (Suc n)\<rparr>)\<rparr>"
    by (simp add: diff_diff_eq)
  ultimately show ?case
    by (simp only: replicate_Suc run.simps do_call.simps DeactivateH_more [OF Suc.prems(1) nz nz1]
        prod.case outcome.case option.case)
qed

lemma run_DeactivateH_zero_n:
  "handlers b i = Some r \<Longrightarrow> uplinkConns r = 0 \<Longrightarrow>
   run (replicate n (DeactivateHandler i)) b = Some b"
  by (induction n) (simp_all add: DeactivateH_zero)

lemma getHandlerUplink_active:
  "handlers b i = Some r \<Longrightarrow> uplink r = Some c \<Longrightarrow> getHandlerUplink b i = ((Some c, None), b)"
  by (simp add: getHandlerUplink_def getHandler_def)

lemma cycle_router:
  assumes inactive: "downlinkConns (router_of b i) = 0" "downlink (router_of b i) = None"
    and k: "1 \<le> k" "k < 2 ^ 64"
  shows "\<exists>b1 b2.
     run (replicate k (ActivateRouter i) @ replicate (k - 1) (DeactivateRouter i)) b = Some b1 \<and>
     downlink (router_of b1 i) = Some (length (chans b)) \<and>
     length (chans b) < length (chans b1) \<and> chans b1 ! length (chans b) = Open \<and>
     fst (getRouterDownlink b1 i) = (Some (length (chans b)), None) \<and>
     DeactivateRouterDownlink b1 i = (Return None, b2) \<and>
     downlink (router_of b2 i) = None \<and> downlinkConns (router_of b2 i) = 0 \<and>
     length (chans b) < length (chans b2) \<and> chans b2 ! length (chans b) = Closed \<and>
     fst (ActivateRouterDownlink b2 i) = (Some (Suc (length (chans b))), None)"
proof -
  obtain n where n: "k = Suc n" using k(1) by (cases k) auto
  let ?c = "length (chans b)"
  let ?r1 = "(router_of b i)\<lparr>downlink := Some ?c, downlinkConns := 1\<rparr>"
  let ?b0 = "b\<lparr>chans := chans b @ [Open], routers := (routers b)(i \<mapsto> ?r1)\<rparr>"
  let ?rk = "?r1\<lparr>downlinkConns := of_nat k\<rparr>"
  let ?bk = "?b0\<lparr>routers := (routers ?b0)(i \<mapsto> ?rk)\<rparr>"
  let ?b1 = "?bk\<lparr>routers := (routers ?bk)(i \<mapsto> ?rk\<lparr>downlinkConns := 1\<rparr>)\<rparr>"
  let ?b2 = "?b1\<lparr>routers := (routers ?b1)(i \<mapsto> ?rk\<lparr>downlinkConns := 0, downlink := None\<rparr>),
                 chans := (chans ?b1)[?c := Closed]\<rparr>"
  have first: "do_call (ActivateRouter i) b = Some ?b0"
    by (simp add: ActivateR_first [OF inactive(2)] inactive(1))
  have acts: "run (replicate n (ActivateRouter i)) ?b0 = Some ?bk"
    using run_ActivateR_n [of ?b0 i ?r1 ?c n] by (simp add: n)
  have "n < unat (downlinkConns ?rk)"
    using k(2) by (simp add: unat_of_nat_go_int n del: of_nat_Suc)
  from run_DeactivateR_n [OF _ this, of ?bk i]
  have deacts: "run (replicate n (DeactivateRouter i)) ?bk = Some ?b1"
    by (simp add: n)
  have run1: "run (replicate k (ActivateRouter i) @ replicate (k - 1) (DeactivateRouter i)) b = Some ?b1"
  proof -
    have "replicate k (ActivateRouter i) @ replicate (k - 1) (DeactivateRouter i) =
        ActivateRouter i # (replicate n (ActivateRouter i) @ replicate n (DeactivateRouter i))"
      by (simp add: n)
    then show ?thesis
      by (simp only: run.simps first option.case run_append acts deacts)
  qed
  have r1: "routers ?b1 i = Some (?rk\<lparr>downlinkConns := 1\<rparr>)" by simp
  have look: "getRouterDownlink ?b1 i = ((Some ?c, None), ?b1)"
    by (rule getRouterDownlink_active [OF r1]) simp
  have last: "DeactivateRouterDownlink ?b1 i = (Return None, ?b2)"
    using DeactivateR_last [OF r1, of ?c] by (simp add: nth_append)
  have again: "fst (ActivateRouterDownlink ?b2 i) = (Some (Suc ?c), None)"
    using ActivateR_first [of ?b2 i] by (simp add: router_of_def)
  show ?thesis
    apply (rule exI [of _ ?b1], rule exI [of _ ?b2])
    apply (simp only: run1 look last again fst_conv)
    apply (simp add: router_of_def nth_append)
    done
qed

lemma cycle_handler:
  assumes inactive: "uplinkConns (handler_of b i) = 0" "uplink (handler_of b i) = None"
    and k: "1 \<le> k" "k < 2 ^ 64"
  shows "\<exists>b1 b2.
     run (replicate k (ActivateHandler i) @ replicate (k - 1) (DeactivateHandler i)) b = Some b1 \<and>
     uplink (handler_of b1 i) = Some (length (chans b)) \<and>
     length (chans b) < length (chans b1) \<and> chans b1 ! length (chans b) = Open \<and>
     fst (getHandlerUplink b1 i) = (Some (length (chans b)), None) \<and>
     DeactivateHandlerUplink b1 i = (Return None, b2) \<and>
     uplink (handler_of b2 i) = None \<and> uplinkConns (handler_of b2 i) = 0 \<and>
     length (chans b) < length (chans b2) \<and> chans b2 ! length (chans b) = Closed \<and>
     fst (ActivateHandlerUplink b2 i) = (Some (Suc (length (chans b))), None)"
proof -
  obtain n where n: "k = Suc n" using k(1) by (cases k) auto
  let ?c = "length (chans b)"
  let ?r1 = "(handler_of b i)\<lparr>uplink := Some ?c, uplinkConns := 1\<rparr>"
  let ?b0 = "b\<lparr>chans := chans b @ [Open], handlers := (handlers b)(i \<mapsto> ?r1)\<rparr>"
  let ?rk = "?r1\<lparr>uplinkConns := of_nat k\<rparr>"
  let ?bk = "?b0\<lparr>handlers := (handlers ?b0)(i \<mapsto> ?rk)\<rparr>"
  let ?b1 = "?bk\<lparr>handlers := (handlers ?bk)(i \<mapsto> ?rk\<lparr>uplinkConns := 1\<rparr>)\<rparr>"
  let ?b2 = "?b1\<lparr>handlers := (handlers ?b1)(i \<mapsto> ?rk\<lparr>uplinkConns := 0, uplink := None\<rparr>),
                 chans := (chans ?b1)[?c := Closed]\<rparr>"
  have first: "do_call (ActivateHandler i) b = Some ?b0"
    by (simp add: ActivateH_first [OF inactive(2)] inactive(1))
  have acts: "run (replicate n (ActivateHandler i)) ?b0 = Some ?bk"
    using run_ActivateH_n [of ?b0 i ?r1 ?c n] by (simp add: n)
  have "n < unat (uplinkConns ?rk)"
    using k(2) by (simp add: unat_of_nat_go_int n del: of_nat_Suc)
  from run_DeactivateH_n [OF _ this, of ?bk i]
  have deacts: "run (replicate n (DeactivateHandler i)) ?bk = Some ?b1"
    by (simp add: n)
  have run1: "run (replicate k (ActivateHandler i) @ replicate (k - 1) (DeactivateHandler i)) b = Some ?b1"
  proof -
    have "replicate k (ActivateHandler i) @ replicate (k - 1) (DeactivateHandler i) =
        ActivateHandler i # (replicate n (ActivateHandler i) @ replicate n (DeactivateHandler i))"
      by (simp add: n)
    then show ?thesis
      by (simp only: run.simps first option.case run_append acts deacts)
  qed
  have r1: "handlers ?b1 i = Some (?rk\<lparr>uplinkConns := 1\<rparr>)" by simp
  have look: "getHandlerUplink ?b1 i = ((Some ?c, None), ?b1)"
    by (rule getHandlerUplink_active [OF r1]) simp
  have last: "DeactivateHandlerUplink ?b1 i = (Return None, ?b2)"
    using DeactivateH_last [OF r1, of ?c] by (simp add: nth_append)
  have again: "fst (ActivateHandlerUplink ?b2 i) = (Some (Suc ?c), None)"
    using ActivateH_first [of ?b2 i] by (simp add: handler_of_def)
  show ?thesis
    apply (rule exI [of _ ?b1], rule exI [of _ ?b2])
    apply (simp only: run1 look last again fst_conv)
    apply (simp add: handler_of_def nth_append)
    done
qed

lemma run_ActivateR_fresh:
  assumes "downlink (router_of b i) = None"
  shows "run (replicate (Suc n) (ActivateRouter i)) b =
    Some (b\<lparr>chans := chans b @ [Open],
            routers := (routers b)(i \<mapsto> (router_of b i)\<lparr>downlink := Some (length (chans b)),
               downlinkConns := downlinkConns (router_of b i) + of_nat (Suc n)\<rparr>)\<rparr>)"
proof -
  let ?r1 = "(router_of b i)\<lparr>downlink := Some (length (chans b)),
     downlinkConns := downlinkConns (router_of b i) + 1\<rparr>"
  let ?b0 = "b\<lparr>chans := chans b @ [Open], routers := (routers b)(i \<mapsto> ?r1)\<rparr>"
  have first: "do_call (ActivateRouter i) b = Some ?b0"
    by (simp add: ActivateR_first [OF assms])
  have "run (replicate n (ActivateRouter i)) ?b0 =
     Some (?b0\<lparr>routers := (routers ?b0)(i \<mapsto> ?r1\<lparr>downlinkConns := downlinkConns ?r1 + of_nat n\<rparr>)\<rparr>)"
    by (rule run_ActivateR_n [of ?b0 i ?r1 "length (chans b)"]) simp_all
  moreover have "?b0\<lparr>routers := (routers ?b0)(i \<mapsto> ?r1\<lparr>downlinkConns := downlinkConns ?r1 + of_nat n\<rparr>)\<rparr>
    = b\<lparr>chans := chans b @ [Open],
            routers := (routers b)(i \<mapsto> (router_of b i)\<lparr>downlink := Some (length (chans b)),
               downlinkConns := downlinkConns (router_of b i) + of_nat (Suc n)\<rparr>)\<rparr>"
    by (simp add: add.assoc)
  ultimately show ?thesis
    by (simp only: replicate_Suc run.simps first option.case)
qed

lemma run_ActivateR_NewBroker:
  "run (replicate (Suc n) (ActivateRouter ''r'')) NewBroker = Some (overflowed (of_nat (Suc n)))"
proof -
  have "downlink (router_of NewBroker ''r'') = None"
    by (simp add: router_of_def NewBroker_def new_router_def)
  from run_ActivateR_fresh [OF this, of n] show ?thesis
    by (simp add: NewBroker_def router_of_def new_router_def overflowed_def del: of_nat_Suc)
qed

section \<open>Lemmas on the uplink handling\<close>

lemma filter_Set_deferred_log [simp]: "filter is_DevicesSet (deferred_log e) = []"
  by (simp add: deferred_log_def split: option.splits)

lemma filter_MAC_deferred_log [simp]: "filter is_HandleUplinkMAC (deferred_log e) = []"
  by (simp add: deferred_log_def split: option.splits)

lemma deferred_Set_events:
  "deferred_Set n st dev err = (err', st', evs) \<Longrightarrow>
     filter is_DevicesSet evs = [DevicesSet dev] \<and> filter is_HandleUplinkMAC evs = [] \<and>
     st' = snd (devices_Set n st dev) \<and>
     err' = (if err = None then fst (devices_Set n st dev) else err)"
  by (auto simp: deferred_Set_def split: prod.splits option.splits)

lemma template_FCnt_prepare:
  "template_FCnt (snd (prepare_downlink up dev m)) = Some (FCntDown dev)"
  by (simp add: prepare_downlink_def template_FCnt_def GetMACPayload_def Let_def)

lemma template_conf_FCnt_prepare:
  "template_conf_FCnt (snd (prepare_downlink up dev m)) =
     (case template_conf_FCnt m of None \<Rightarrow> None | Some _ \<Rightarrow> Some (FCntDown dev))"
  by (simp add: prepare_downlink_def template_conf_FCnt_def set_conf_FCnt_def InitResponseTemplate_def
      Let_def split: option.splits)

lemma FCntDown_staged [simp]: "FCntDown (staged_device up now dev0) = FCntDown dev0"
  by (simp add: staged_device_def StartUpdate_def)

lemma HandleUplink_fetched:
  assumes "UnmarshalPayload n message0 = (None, message)"
    "GetMACPayload (Message message) = Some up"
    "AppEUI message = Some app" "DevEUI message = Some deui"
    "devices_Get n st app deui = Inr dev0"
    "prepare_downlink up (staged_device up now dev0) (message\<lparr>Trace := Trace message @ [UpdateStateEvent]\<rparr>) = (made, message2)"
    "handleUplinkMAC n message2 (staged_device up now dev0) = (macErr, message3, dev')"
    "finish_uplink n made macErr message3 = (ret, err, message4)"
  shows "HandleUplink n now st message0 =
     \<lparr>returned = ret, message_after = message4,
      store_after = fst (snd (deferred_Set n st dev' err)),
      events = [StatusUplinkMark, DevicesGet app deui, HandleUplinkMAC message2 (staged_device up now dev0)]
         @ snd (snd (deferred_Set n st dev' err)) @ deferred_log (fst (deferred_Set n st dev' err))\<rparr>"
  using assms by (simp add: HandleUplink_def Let_def split: prod.splits)

section \<open>The registry: the claims\<close>

text \<open>
  C1 (as amended). Starting from a new broker, after any finite sequence of
  ActivateRouterDownlink, DeactivateRouterDownlink, ActivateHandlerUplink and
  DeactivateHandlerUplink calls that contains fewer than \<open>2 ^ 63\<close> activations, no call has
  panicked and, for every id, the entry's channel is non-nil if and only if its consumer
  count is greater than 0. The bound keeps the 64-bit count from wrapping around.
\<close>

theorem channel_iff_count:
  assumes "length (filter is_activate cs) < 2 ^ 63"
  shows "\<exists>b'. run cs NewBroker = Some b' \<and>
     (\<forall>i. (downlink (router_of b' i) \<noteq> None) = (0 < sint (downlinkConns (router_of b' i)))) \<and>
     (\<forall>i. (uplink (handler_of b' i) \<noteq> None) = (0 < sint (uplinkConns (handler_of b' i))))"
proof -
  have "int (length (filter is_activate cs)) < int (2 ^ 63)"
    using assms by (simp only: of_nat_less_iff)
  then have "0 + int (length (filter is_activate cs)) < 2 ^ 63" by simp
  from run_wf [OF wf_NewBroker this] obtain b' where "run cs NewBroker = Some b'" "wf b'" by blast
  then show ?thesis using wf_entry by blast
qed

theorem channel_iff_count_witness:
  "length (filter is_activate
      [ActivateRouter ''r'', ActivateHandler ''h'', ActivateRouter ''r'', DeactivateRouter ''r''])
     < 2 ^ 63 \<and>
   (\<exists>b'. run [ActivateRouter ''r'', ActivateHandler ''h'', ActivateRouter ''r'',
              DeactivateRouter ''r''] NewBroker = Some b' \<and>
     (\<forall>i. (downlink (router_of b' i) \<noteq> None) = (0 < sint (downlinkConns (router_of b' i)))) \<and>
     (\<forall>i. (uplink (handler_of b' i) \<noteq> None) = (0 < sint (uplinkConns (handler_of b' i)))))"
proof -
  have h: "length (filter is_activate
      [ActivateRouter ''r'', ActivateHandler ''h'', ActivateRouter ''r'', DeactivateRouter ''r''])
     < 2 ^ 63"
    by simp
  from channel_iff_count [OF h] h show ?thesis by blast
qed

text \<open>
  The claim as stated fails when the count wraps: after \<open>2 ^ 63\<close> activations of one router
  the channel is open and the count, read as Go's signed \<^verbatim>\<open>int\<close>, is negative.
\<close>

theorem channel_iff_count_overflow:
  "run (replicate (2 ^ 63) (ActivateRouter ''r'')) NewBroker = Some (overflowed (2 ^ 63)) \<and>
   downlink (router_of (overflowed (2 ^ 63)) ''r'') \<noteq> None \<and>
   \<not> 0 < sint (downlinkConns (router_of (overflowed (2 ^ 63)) ''r''))"
proof -
  have "Suc (2 ^ 63 - 1) = 2 ^ 63" by simp
  with run_ActivateR_NewBroker [of "2 ^ 63 - 1"]
  have "run (replicate (2 ^ 63) (ActivateRouter ''r'')) NewBroker = Some (overflowed (of_nat (2 ^ 63)))"
    by (simp only:)
  moreover have "(of_nat (2 ^ 63) :: go_int) = 2 ^ 63" by simp
  ultimately have "run (replicate (2 ^ 63) (ActivateRouter ''r'')) NewBroker = Some (overflowed (2 ^ 63))"
    by (simp only:)
  then show ?thesis by (simp add: overflowed_def router_of_def)
qed

text \<open>
  C6 (as amended). The delivery-end lookup leaves the broker as it is when the id has an
  entry. When the id has none, the lookup stores a new inactive entry (count 0, nil channel)
  under that id and changes nothing else. It creates no channel.
\<close>

theorem lookup_creates_only_missing_entry:
  "snd (getRouterDownlink b i) =
     (case routers b i of
        Some _ \<Rightarrow> b
      | None \<Rightarrow> b\<lparr>routers := (routers b)(i \<mapsto> new_router)\<rparr>) \<and>
   snd (getHandlerUplink b i) =
     (case handlers b i of
        Some _ \<Rightarrow> b
      | None \<Rightarrow> b\<lparr>handlers := (handlers b)(i \<mapsto> new_handler)\<rparr>)"
  by (auto simp: getRouterDownlink_def getRouter_def getHandlerUplink_def getHandler_def
      split: option.splits)

text \<open>
  The claim as stated fails for an id that has no entry: the new broker has no router
  \<open>''r''\<close>, and after the lookup the map has an entry for it.
\<close>

theorem lookup_creates_entry:
  "routers NewBroker ''r'' = None \<and>
   routers (snd (getRouterDownlink NewBroker ''r'')) ''r'' = Some new_router"
  by (simp add: getRouterDownlink_def getRouter_def NewBroker_def new_router_def)

text \<open>
  C7 (as amended). For an id that is inactive (count 0, channel nil) and every \<open>k\<close> with
  \<open>1 \<le> k < 2 ^ 64\<close>: \<open>k\<close> activations followed by \<open>k - 1\<close> deactivations run without a panic
  and leave the channel made by the first activation in the entry and open, and the
  delivery-end lookup returns it with a nil error; the \<open>k\<close>-th deactivation returns nil,
  closes that channel and clears the entry's channel; the next activation returns a channel
  different from the closed one. The same holds for handlers.
\<close>

theorem activate_deactivate_cycle:
  assumes "1 \<le> k" "k < 2 ^ 64"
  shows
   "(downlinkConns (router_of b i) = 0 \<and> downlink (router_of b i) = None \<longrightarrow>
      (\<exists>b1 b2.
         run (replicate k (ActivateRouter i) @ replicate (k - 1) (DeactivateRouter i)) b = Some b1 \<and>
         downlink (router_of b1 i) = Some (length (chans b)) \<and>
         length (chans b) < length (chans b1) \<and> chans b1 ! length (chans b) = Open \<and>
         fst (getRouterDownlink b1 i) = (Some (length (chans b)), None) \<and>
         DeactivateRouterDownlink b1 i = (Return None, b2) \<and>
         downlink (router_of b2 i) = None \<and> downlinkConns (router_of b2 i) = 0 \<and>
         length (chans b) < length (chans b2) \<and> chans b2 ! length (chans b) = Closed \<and>
         fst (ActivateRouterDownlink b2 i) = (Some (Suc (length (chans b))), None))) \<and>
    (uplinkConns (handler_of b i) = 0 \<and> uplink (handler_of b i) = None \<longrightarrow>
      (\<exists>b1 b2.
         run (replicate k (ActivateHandler i) @ replicate (k - 1) (DeactivateHandler i)) b = Some b1 \<and>
         uplink (handler_of b1 i) = Some (length (chans b)) \<and>
         length (chans b) < length (chans b1) \<and> chans b1 ! length (chans b) = Open \<and>
         fst (getHandlerUplink b1 i) = (Some (length (chans b)), None) \<and>
         DeactivateHandlerUplink b1 i = (Return None, b2) \<and>
         uplink (handler_of b2 i) = None \<and> uplinkConns (handler_of b2 i) = 0 \<and>
         length (chans b) < length (chans b2) \<and> chans b2 ! length (chans b) = Closed \<and>
         fst (ActivateHandlerUplink b2 i) = (Some (Suc (length (chans b))), None)))"
  using cycle_router [OF _ _ assms, of b i] cycle_handler [OF _ _ assms, of b i] by blast

theorem activate_deactivate_cycle_witness:
  "(1::nat) \<le> 2 \<and> (2::nat) < 2 ^ 64 \<and>
   downlinkConns (router_of NewBroker ''r'') = 0 \<and> downlink (router_of NewBroker ''r'') = None \<and>
   (\<exists>b1 b2.
      run [ActivateRouter ''r'', ActivateRouter ''r'', DeactivateRouter ''r''] NewBroker = Some b1 \<and>
      downlink (router_of b1 ''r'') = Some 0 \<and> chans b1 ! 0 = Open \<and>
      fst (getRouterDownlink b1 ''r'') = (Some 0, None) \<and>
      DeactivateRouterDownlink b1 ''r'' = (Return None, b2) \<and>
      downlink (router_of b2 ''r'') = None \<and> chans b2 ! 0 = Closed \<and>
      fst (ActivateRouterDownlink b2 ''r'') = (Some 1, None)) \<and>
   uplinkConns (handler_of NewBroker ''h'') = 0 \<and> uplink (handler_of NewBroker ''h'') = None \<and>
   (\<exists>b1 b2.
      run [ActivateHandler ''h'', ActivateHandler ''h'', DeactivateHandler ''h''] NewBroker = Some b1 \<and>
      uplink (handler_of b1 ''h'') = Some 0 \<and> chans b1 ! 0 = Open \<and>
      fst (getHandlerUplink b1 ''h'') = (Some 0, None) \<and>
      DeactivateHandlerUplink b1 ''h'' = (Return None, b2) \<and>
      uplink (handler_of b2 ''h'') = None \<and> chans b2 ! 0 = Closed \<and>
      fst (ActivateHandlerUplink b2 ''h'') = (Some 1, None))"
proof -
  have k: "(1::nat) \<le> 2" "(2::nat) < 2 ^ 64" by simp_all
  have inactive: "downlinkConns (router_of NewBroker ''r'') = 0"
      "downlink (router_of NewBroker ''r'') = None"
      "uplinkConns (handler_of NewBroker ''h'') = 0"
      "uplink (handler_of NewBroker ''h'') = None"
    by (simp_all add: router_of_def handler_of_def NewBroker_def new_router_def new_handler_def)
  have c: "length (chans NewBroker) = 0" by (simp add: NewBroker_def)
  have r: "replicate 2 (ActivateRouter ''r'') @ replicate (2 - 1) (DeactivateRouter ''r'') =
      [ActivateRouter ''r'', ActivateRouter ''r'', DeactivateRouter ''r'']"
    "replicate 2 (ActivateHandler ''h'') @ replicate (2 - 1) (DeactivateHandler ''h'') =
      [ActivateHandler ''h'', ActivateHandler ''h'', DeactivateHandler ''h'']"
    by (simp_all add: numeral_2_eq_2)
  from activate_deactivate_cycle [OF k, of NewBroker "''r''"] inactive(1,2)
  obtain b1 b2 where
    "run (replicate 2 (ActivateRouter ''r'') @ replicate (2 - 1) (DeactivateRouter ''r'')) NewBroker
       = Some b1"
    "downlink (router_of b1 ''r'') = Some (length (chans NewBroker))"
    "chans b1 ! length (chans NewBroker) = Open"
    "fst (getRouterDownlink b1 ''r'') = (Some (length (chans NewBroker)), None)"
    "DeactivateRouterDownlink b1 ''r'' = (Return None, b2)"
    "downlink (router_of b2 ''r'') = None"
    "chans b2 ! length (chans NewBroker) = Closed"
    "fst (ActivateRouterDownlink b2 ''r'') = (Some (Suc (length (chans NewBroker))), None)"
    by blast
  then have rt: "\<exists>b1 b2.
      run [ActivateRouter ''r'', ActivateRouter ''r'', DeactivateRouter ''r''] NewBroker = Some b1 \<and>
      downlink (router_of b1 ''r'') = Some 0 \<and> chans b1 ! 0 = Open \<and>
      fst (getRouterDownlink b1 ''r'') = (Some 0, None) \<and>
      DeactivateRouterDownlink b1 ''r'' = (Return None, b2) \<and>
      downlink (router_of b2 ''r'') = None \<and> chans b2 ! 0 = Closed \<and>
      fst (ActivateRouterDownlink b2 ''r'') = (Some 1, None)"
    unfolding c r by (intro exI [of _ b1] exI [of _ b2]) simp
  from activate_deactivate_cycle [OF k, of NewBroker "''h''"] inactive(3,4)
  obtain b1 b2 where
    "run (replicate 2 (ActivateHandler ''h'') @ replicate (2 - 1) (DeactivateHandler ''h'')) NewBroker
       = Some b1"
    "uplink (handler_of b1 ''h'') = Some (length (chans NewBroker))"
    "chans b1 ! length (chans NewBroker) = Open"
    "fst (getHandlerUplink b1 ''h'') = (Some (length (chans NewBroker)), None)"
    "DeactivateHandlerUplink b1 ''h'' = (Return None, b2)"
    "uplink (handler_of b2 ''h'') = None"
    "chans b2 ! length (chans NewBroker) = Closed"
    "fst (ActivateHandlerUplink b2 ''h'') = (Some (Suc (length (chans NewBroker))), None)"
    by blast
  then have hd: "\<exists>b1 b2.
      run [ActivateHandler ''h'', ActivateHandler ''h'', DeactivateHandler ''h''] NewBroker = Some b1 \<and>
      uplink (handler_of b1 ''h'') = Some 0 \<and> chans b1 ! 0 = Open \<and>
      fst (getHandlerUplink b1 ''h'') = (Some 0, None) \<and>
      DeactivateHandlerUplink b1 ''h'' = (Return None, b2) \<and>
      uplink (handler_of b2 ''h'') = None \<and> chans b2 ! 0 = Closed \<and>
      fst (ActivateHandlerUplink b2 ''h'') = (Some 1, None)"
    unfolding c r by (intro exI [of _ b1] exI [of _ b2]) simp
  from k inactive rt hd show ?thesis by (intro conjI)
qed

text \<open>
  The claim as stated fails at \<open>k = 2 ^ 64\<close>: the count has wrapped to 0 after the
  activations, every deactivation, the \<open>k\<close>-th included, returns the "not active" error and
  changes nothing, and the channel stays in the entry, open.
\<close>

theorem activate_deactivate_cycle_overflow:
  "run (replicate (2 ^ 64) (ActivateRouter ''r'') @ replicate (2 ^ 64 - 1) (DeactivateRouter ''r''))
      NewBroker = Some (overflowed 0) \<and>
   DeactivateRouterDownlink (overflowed 0) ''r'' =
     (Return (Some (ErrInternal ''Router r not active'')), overflowed 0) \<and>
   downlink (router_of (overflowed 0) ''r'') = Some 0 \<and>
   chans (overflowed 0) ! 0 = Open"
proof -
  have "Suc (2 ^ 64 - 1) = 2 ^ 64" by simp
  with run_ActivateR_NewBroker [of "2 ^ 64 - 1"]
  have "run (replicate (2 ^ 64) (ActivateRouter ''r'')) NewBroker = Some (overflowed (of_nat (2 ^ 64)))"
    by (simp only:)
  moreover have "(of_nat (2 ^ 64) :: go_int) = 0" by simp
  ultimately have a: "run (replicate (2 ^ 64) (ActivateRouter ''r'')) NewBroker = Some (overflowed 0)"
    by (simp only:)
  have r: "routers (overflowed 0) ''r'' = Some \<lparr>downlinkConns = 0, downlink = Some 0\<rparr>"
    by (simp add: overflowed_def)
  have d: "run (replicate (2 ^ 64 - 1) (DeactivateRouter ''r'')) (overflowed 0) = Some (overflowed 0)"
    by (rule run_DeactivateR_zero_n [OF r]) simp
  have "DeactivateRouterDownlink (overflowed 0) ''r'' =
     (Return (Some (ErrInternal ''Router r not active'')), overflowed 0)"
    using DeactivateR_zero [OF r] by simp
  then show ?thesis
    by (simp only: run_append a d option.case) (simp add: overflowed_def router_of_def)
qed

text \<open>
  C8. For an id whose consumer count is zero, an id that was never activated included,
  DeactivateRouterDownlink and DeactivateHandlerUplink return the Internal error
  "Router (Handler) id not active" and leave every entry's count and channel, and every
  channel object, as they were.
\<close>

theorem deactivate_inactive_is_error:
  "(downlinkConns (router_of b i) = 0 \<longrightarrow>
      fst (DeactivateRouterDownlink b i) =
        Return (Some (ErrInternal (''Router '' @ i @ '' not active''))) \<and>
      (\<forall>j. router_of (snd (DeactivateRouterDownlink b i)) j = router_of b j) \<and>
      (\<forall>j. handler_of (snd (DeactivateRouterDownlink b i)) j = handler_of b j) \<and>
      chans (snd (DeactivateRouterDownlink b i)) = chans b) \<and>
   (uplinkConns (handler_of b i) = 0 \<longrightarrow>
      fst (DeactivateHandlerUplink b i) =
        Return (Some (ErrInternal (''Handler '' @ i @ '' not active''))) \<and>
      (\<forall>j. handler_of (snd (DeactivateHandlerUplink b i)) j = handler_of b j) \<and>
      (\<forall>j. router_of (snd (DeactivateHandlerUplink b i)) j = router_of b j) \<and>
      chans (snd (DeactivateHandlerUplink b i)) = chans b)"
  by (simp add: Deactivate_router_zero Deactivate_handler_zero)

theorem deactivate_inactive_is_error_witness:
  "downlinkConns (router_of NewBroker ''r'') = 0 \<and>
   fst (DeactivateRouterDownlink NewBroker ''r'') =
     Return (Some (ErrInternal ''Router r not active'')) \<and>
   downlinkConns (router_of (snd (DeactivateRouterDownlink NewBroker ''r'')) ''r'') = 0 \<and>
   downlink (router_of (snd (DeactivateRouterDownlink NewBroker ''r'')) ''r'') = None \<and>
   uplinkConns (handler_of NewBroker ''h'') = 0 \<and>
   fst (DeactivateHandlerUplink NewBroker ''h'') =
     Return (Some (ErrInternal ''Handler h not active'')) \<and>
   uplinkConns (handler_of (snd (DeactivateHandlerUplink NewBroker ''h'')) ''h'') = 0 \<and>
   uplink (handler_of (snd (DeactivateHandlerUplink NewBroker ''h'')) ''h'') = None"
  using deactivate_inactive_is_error [of NewBroker "''r''"]
    deactivate_inactive_is_error [of NewBroker "''h''"]
  by (simp add: router_of_def handler_of_def NewBroker_def new_router_def new_handler_def)

text \<open>
  C9 (as amended). For an id whose channel is nil, the delivery-end lookup returns a nil
  channel and the Internal error "Router (Handler) id not active".
\<close>

theorem lookup_inactive_is_Internal:
  "(downlink (router_of b i) = None \<longrightarrow>
      fst (getRouterDownlink b i) =
        (None, Some (ErrInternal (''Router '' @ i @ '' not active'')))) \<and>
   (uplink (handler_of b i) = None \<longrightarrow>
      fst (getHandlerUplink b i) =
        (None, Some (ErrInternal (''Handler '' @ i @ '' not active''))))"
  by (auto simp: getRouterDownlink_def getRouter_def router_of_def new_router_def
      getHandlerUplink_def getHandler_def handler_of_def new_handler_def split: option.splits)

theorem lookup_inactive_is_Internal_witness:
  "downlink (router_of NewBroker ''r'') = None \<and>
   fst (getRouterDownlink NewBroker ''r'') = (None, Some (ErrInternal ''Router r not active'')) \<and>
   uplink (handler_of NewBroker ''h'') = None \<and>
   fst (getHandlerUplink NewBroker ''h'') = (None, Some (ErrInternal ''Handler h not active''))"
  using lookup_inactive_is_Internal [of NewBroker "''r''"]
    lookup_inactive_is_Internal [of NewBroker "''h''"]
  by (simp add: router_of_def handler_of_def NewBroker_def new_router_def new_handler_def)

text \<open>
  The claim as stated fails on the kind of the error: for the router \<open>''r''\<close> of a new
  broker (count zero, channel nil) the lookup's error is an Internal one, not a NotFound.
\<close>

theorem lookup_inactive_not_NotFound:
  "downlinkConns (router_of NewBroker ''r'') = 0 \<and> downlink (router_of NewBroker ''r'') = None \<and>
   snd (fst (getRouterDownlink NewBroker ''r'')) = Some (ErrInternal ''Router r not active'') \<and>
   \<not> is_NotFound (ErrInternal ''Router r not active'')"
  by (simp add: getRouterDownlink_def getRouter_def router_of_def NewBroker_def new_router_def)

text \<open>
  C10. ActivateRouterDownlink and ActivateHandlerUplink never fail: for every id and every
  broker state they return a non-nil channel and a nil error.
\<close>

theorem activate_never_fails:
  "(\<exists>c. fst (ActivateRouterDownlink b i) = (Some c, None)) \<and>
   (\<exists>c. fst (ActivateHandlerUplink b i) = (Some c, None))"
  by (auto simp: ActivateRouterDownlink_def ActivateHandlerUplink_def make_chan_def Let_def
      split: prod.splits if_splits)

section \<open>The network server: the claims\<close>

text \<open>
  C2. Whenever HandleUplink returns a message and a nil error, the device was read from the
  store, MAC-command processing was called exactly once, and the message it was handed
  already carried a response template whose MAC-level FCnt equals the FCntDown of the
  device as read from the store, and whose LoRaWAN protocol-configuration FCnt, when the
  incoming template has such a configuration, equals it too.
\<close>

theorem template_counter_is_stored_FCntDown:
  assumes "returned (HandleUplink n now st message0) = Return (Some m', None)"
  shows "\<exists>message app deui dev0 message2 dev.
     UnmarshalPayload n message0 = (None, message) \<and>
     AppEUI message = Some app \<and> DevEUI message = Some deui \<and>
     devices_Get n st app deui = Inr dev0 \<and>
     filter is_HandleUplinkMAC (events (HandleUplink n now st message0)) =
        [HandleUplinkMAC message2 dev] \<and>
     FCntDown dev = FCntDown dev0 \<and>
     template_FCnt message2 = Some (FCntDown dev0) \<and>
     template_conf_FCnt message2 =
        (case template_conf_FCnt message of None \<Rightarrow> None | Some _ \<Rightarrow> Some (FCntDown dev0))"
proof -
  obtain e0 message where u: "UnmarshalPayload n message0 = (e0, message)"
    by (cases "UnmarshalPayload n message0")
  from assms u have e0: "e0 = None"
    by (cases e0) (simp_all add: HandleUplink_def)
  from assms u e0 obtain up where up: "GetMACPayload (Message message) = Some up"
    by (cases "GetMACPayload (Message message)") (simp_all add: HandleUplink_def)
  from assms u e0 up obtain app deui where a: "AppEUI message = Some app" "DevEUI message = Some deui"
    by (cases "AppEUI message"; cases "DevEUI message") (simp_all add: HandleUplink_def)
  from assms u e0 up a obtain dev0 where g: "devices_Get n st app deui = Inr dev0"
    by (cases "devices_Get n st app deui") (simp_all add: HandleUplink_def)
  let ?dev = "staged_device up now dev0"
  let ?m1 = "message\<lparr>Trace := Trace message @ [UpdateStateEvent]\<rparr>"
  obtain made message2 where p: "prepare_downlink up ?dev ?m1 = (made, message2)"
    by (cases "prepare_downlink up ?dev ?m1")
  obtain macErr message3 dev' where m: "handleUplinkMAC n message2 ?dev = (macErr, message3, dev')"
    by (cases "handleUplinkMAC n message2 ?dev")
  obtain ret err message4 where f: "finish_uplink n made macErr message3 = (ret, err, message4)"
    by (cases "finish_uplink n made macErr message3")
  obtain err' st' evs where d: "deferred_Set n st dev' err = (err', st', evs)"
    by (cases "deferred_Set n st dev' err")
  note H = HandleUplink_fetched [OF u [unfolded e0] up a g p m f]
  have ev: "filter is_HandleUplinkMAC (events (HandleUplink n now st message0)) =
      [HandleUplinkMAC message2 ?dev]"
    using deferred_Set_events [OF d] by (simp add: H d)
  have m2: "message2 = snd (prepare_downlink up ?dev ?m1)" using p by simp
  have t1: "template_FCnt message2 = Some (FCntDown dev0)"
    unfolding m2 by (simp add: template_FCnt_prepare)
  have "template_conf_FCnt ?m1 = template_conf_FCnt message"
    by (simp add: template_conf_FCnt_def)
  then have t2: "template_conf_FCnt message2 =
        (case template_conf_FCnt message of None \<Rightarrow> None | Some _ \<Rightarrow> Some (FCntDown dev0))"
    unfolding m2 by (simp add: template_conf_FCnt_prepare split: option.splits)
  have t0: "FCntDown ?dev = FCntDown dev0" by simp
  from u e0 a g ev t0 t1 t2 show ?thesis by blast
qed

text \<open>
  The scenario of the specification: the device is stored with downlink counter 5, the
  MAC-command stub adds one to the device's counter. The returned template carries 5 in
  both places and the store holds 6 afterwards.
\<close>

theorem template_counter_is_stored_FCntDown_witness:
  "returned (HandleUplink stub_server 100 store_1 uplink_1) = Return (Some response_1, None) \<and>
   (\<exists>message app deui dev0 message2 dev.
     UnmarshalPayload stub_server uplink_1 = (None, message) \<and>
     AppEUI message = Some app \<and> DevEUI message = Some deui \<and>
     devices_Get stub_server store_1 app deui = Inr dev0 \<and>
     filter is_HandleUplinkMAC (events (HandleUplink stub_server 100 store_1 uplink_1)) =
        [HandleUplinkMAC message2 dev] \<and>
     FCntDown dev = FCntDown dev0 \<and>
     template_FCnt message2 = Some (FCntDown dev0) \<and>
     template_conf_FCnt message2 =
        (case template_conf_FCnt message of None \<Rightarrow> None | Some _ \<Rightarrow> Some (FCntDown dev0))) \<and>
   devices_Get stub_server store_1 1 2 = Inr dev_1 \<and> FCntDown dev_1 = 5 \<and>
   template_FCnt response_1 = Some 5 \<and> template_conf_FCnt response_1 = Some 5 \<and>
   store_after (HandleUplink stub_server 100 store_1 uplink_1) (1, 2) =
     Some (dev_1\<lparr>FCntUp := 41, FCntDown := 6, LastSeen := 100\<rparr>)"
proof -
  have h: "returned (HandleUplink stub_server 100 store_1 uplink_1) = Return (Some response_1, None)"
    by (simp add: HandleUplink_def stub_server_def store_1_def uplink_1_def uplink_mac_1_def
        dev_1_def response_1_def GetMACPayload_def staged_device_def StartUpdate_def
        prepare_downlink_def InitResponseTemplate_def InitLoRaWAN_def InitDownlink_def
        set_conf_FCnt_def finish_uplink_def deferred_Set_def deferred_log_def Let_def)
  have s: "store_after (HandleUplink stub_server 100 store_1 uplink_1) (1, 2) =
     Some (dev_1\<lparr>FCntUp := 41, FCntDown := 6, LastSeen := 100\<rparr>)"
    by (simp add: HandleUplink_def stub_server_def store_1_def uplink_1_def uplink_mac_1_def
        dev_1_def GetMACPayload_def staged_device_def StartUpdate_def
        prepare_downlink_def InitResponseTemplate_def InitLoRaWAN_def InitDownlink_def
        set_conf_FCnt_def finish_uplink_def deferred_Set_def deferred_log_def Let_def)
  have t: "devices_Get stub_server store_1 1 2 = Inr dev_1" "FCntDown dev_1 = 5"
      "template_FCnt response_1 = Some 5" "template_conf_FCnt response_1 = Some 5"
    by (simp_all add: stub_server_def store_1_def dev_1_def response_1_def uplink_1_def
        template_FCnt_def template_conf_FCnt_def GetMACPayload_def)
  from template_counter_is_stored_FCntDown [OF h] h s t show ?thesis by blast
qed

text \<open>
  C3. Whenever the device record has been fetched from the store, devices.Set is invoked
  exactly once on every exit path of HandleUplink, on the working record (the fetched
  record with FCntUp and LastSeen staged) as MAC-command processing left it, and the store
  afterwards is the one that Set produced. This covers the exits on a failure of
  handleUplinkMAC, on a failure of marshalling, and on a panic.
\<close>

theorem device_committed_once:
  assumes "UnmarshalPayload n message0 = (None, message)"
    "GetMACPayload (Message message) = Some up"
    "AppEUI message = Some app" "DevEUI message = Some deui"
    "devices_Get n st app deui = Inr dev0"
  shows "\<exists>made message2 macErr message3 dev'.
     prepare_downlink up (staged_device up now dev0)
        (message\<lparr>Trace := Trace message @ [UpdateStateEvent]\<rparr>) = (made, message2) \<and>
     handleUplinkMAC n message2 (staged_device up now dev0) = (macErr, message3, dev') \<and>
     FCntUp (staged_device up now dev0) = FCnt up \<and>
     LastSeen (staged_device up now dev0) = now \<and>
     filter is_DevicesSet (events (HandleUplink n now st message0)) = [DevicesSet dev'] \<and>
     store_after (HandleUplink n now st message0) = snd (devices_Set n st dev')"
proof -
  obtain made message2 where p: "prepare_downlink up (staged_device up now dev0)
        (message\<lparr>Trace := Trace message @ [UpdateStateEvent]\<rparr>) = (made, message2)"
    by (cases "prepare_downlink up (staged_device up now dev0)
        (message\<lparr>Trace := Trace message @ [UpdateStateEvent]\<rparr>)")
  obtain macErr message3 dev' where
    m: "handleUplinkMAC n message2 (staged_device up now dev0) = (macErr, message3, dev')"
    by (cases "handleUplinkMAC n message2 (staged_device up now dev0)")
  obtain ret err message4 where f: "finish_uplink n made macErr message3 = (ret, err, message4)"
    by (cases "finish_uplink n made macErr message3")
  obtain err' st' evs where d: "deferred_Set n st dev' err = (err', st', evs)"
    by (cases "deferred_Set n st dev' err")
  note H = HandleUplink_fetched [OF assms p m f]
  from deferred_Set_events [OF d] have
    "filter is_DevicesSet (events (HandleUplink n now st message0)) = [DevicesSet dev']"
    "store_after (HandleUplink n now st message0) = snd (devices_Set n st dev')"
    by (simp_all add: H d)
  moreover have "FCntUp (staged_device up now dev0) = FCnt up"
    "LastSeen (staged_device up now dev0) = now"
    by (simp_all add: staged_device_def)
  ultimately show ?thesis using p m by blast
qed

text \<open>
  With MAC-command processing failing, the error is returned and the store still receives
  the staged FCntUp 41 and LastSeen 100.
\<close>

theorem device_committed_once_witness:
  "UnmarshalPayload failing_mac_server uplink_1 = (None, uplink_1) \<and>
   GetMACPayload (Message uplink_1) = Some uplink_mac_1 \<and>
   AppEUI uplink_1 = Some 1 \<and> DevEUI uplink_1 = Some 2 \<and>
   devices_Get failing_mac_server store_1 1 2 = Inr dev_1 \<and>
   (\<exists>made message2 macErr message3 dev'.
     prepare_downlink uplink_mac_1 (staged_device uplink_mac_1 100 dev_1)
        (uplink_1\<lparr>Trace := Trace uplink_1 @ [UpdateStateEvent]\<rparr>) = (made, message2) \<and>
     handleUplinkMAC failing_mac_server message2 (staged_device uplink_mac_1 100 dev_1) =
        (macErr, message3, dev') \<and>
     FCntUp (staged_device uplink_mac_1 100 dev_1) = FCnt uplink_mac_1 \<and>
     LastSeen (staged_device uplink_mac_1 100 dev_1) = 100 \<and>
     filter is_DevicesSet (events (HandleUplink failing_mac_server 100 store_1 uplink_1)) =
        [DevicesSet dev'] \<and>
     store_after (HandleUplink failing_mac_server 100 store_1 uplink_1) =
        snd (devices_Set failing_mac_server store_1 dev')) \<and>
   returned (HandleUplink failing_mac_server 100 store_1 uplink_1) =
     Return (None, Some (ErrOther ''mac commands'')) \<and>
   store_after (HandleUplink failing_mac_server 100 store_1 uplink_1) (1, 2) =
     Some (dev_1\<lparr>FCntUp := 41, LastSeen := 100\<rparr>)"
proof -
  have h: "UnmarshalPayload failing_mac_server uplink_1 = (None, uplink_1)"
    "GetMACPayload (Message uplink_1) = Some uplink_mac_1"
    "AppEUI uplink_1 = Some 1" "DevEUI uplink_1 = Some 2"
    "devices_Get failing_mac_server store_1 1 2 = Inr dev_1"
    by (simp_all add: failing_mac_server_def stub_server_def uplink_1_def GetMACPayload_def
        store_1_def)
  have r: "returned (HandleUplink failing_mac_server 100 store_1 uplink_1) =
     Return (None, Some (ErrOther ''mac commands''))"
    "store_after (HandleUplink failing_mac_server 100 store_1 uplink_1) (1, 2) =
     Some (dev_1\<lparr>FCntUp := 41, LastSeen := 100\<rparr>)"
    by (simp_all add: HandleUplink_def failing_mac_server_def stub_server_def store_1_def
        uplink_1_def uplink_mac_1_def dev_1_def GetMACPayload_def staged_device_def
        StartUpdate_def prepare_downlink_def InitResponseTemplate_def InitLoRaWAN_def
        InitDownlink_def set_conf_FCnt_def finish_uplink_def deferred_Set_def deferred_log_def Let_def)
  from device_committed_once [OF h, of 100] h r show ?thesis by blast
qed

text \<open>
  C4. The code at the failing input: MAC-command processing and marshalling succeed and
  devices.Set fails. The deferred closure assigns the failure to the local \<^verbatim>\<open>err\<close>, which
  the log line then reports, but the function has unnamed results and returns the message
  with a nil error.
\<close>

theorem set_failure_not_returned:
  "returned (HandleUplink failing_store_server 100 store_1 uplink_1) =
     Return (Some response_1, None) \<and>
   drop 3 (events (HandleUplink failing_store_server 100 store_1 uplink_1)) =
     [DevicesSet (dev_1\<lparr>FCntUp := 41, FCntDown := 6, LastSeen := 100, in_update := True\<rparr>),
      LogError ''Could not update device state'' (ErrOther ''store unavailable''),
      LogWarn ''Could not handle uplink'' (ErrOther ''store unavailable'')]"
  by (simp add: HandleUplink_def failing_store_server_def stub_server_def store_1_def
      uplink_1_def uplink_mac_1_def dev_1_def response_1_def GetMACPayload_def staged_device_def
      StartUpdate_def prepare_downlink_def InitResponseTemplate_def InitLoRaWAN_def
      InitDownlink_def set_conf_FCnt_def finish_uplink_def deferred_Set_def deferred_log_def Let_def)

text \<open>
  C5. For every uplink whose decoded content has no LoRaWAN MAC payload, HandleUplink
  returns the InvalidArgument error and produces no event at all, so neither devices.Get nor
  devices.Set is reached, and the store is the one it was given.
\<close>

theorem no_mac_payload_rejected:
  assumes "UnmarshalPayload n message0 = (None, message)"
    "GetMACPayload (Message message) = None"
  shows "returned (HandleUplink n now st message0) =
      Return (None, Some (ErrInvalidArgument ''Uplink'' ''does not contain a MAC payload'')) \<and>
    events (HandleUplink n now st message0) = [] \<and>
    store_after (HandleUplink n now st message0) = st"
  using assms by (simp add: HandleUplink_def)

theorem no_mac_payload_rejected_witness:
  "UnmarshalPayload stub_server no_mac_uplink = (None, no_mac_uplink) \<and>
   GetMACPayload (Message no_mac_uplink) = None \<and>
   returned (HandleUplink stub_server 100 store_1 no_mac_uplink) =
      Return (None, Some (ErrInvalidArgument ''Uplink'' ''does not contain a MAC payload'')) \<and>
   events (HandleUplink stub_server 100 store_1 no_mac_uplink) = [] \<and>
   store_after (HandleUplink stub_server 100 store_1 no_mac_uplink) = store_1"
proof -
  have h: "UnmarshalPayload stub_server no_mac_uplink = (None, no_mac_uplink)"
    "GetMACPayload (Message no_mac_uplink) = None"
    by (simp_all add: stub_server_def no_mac_uplink_def uplink_1_def GetMACPayload_def)
  from no_mac_payload_rejected [OF h, of 100 store_1] h show ?thesis by blast
qed

end
